theory Spec2Isabelle
  imports Main
begin

section \<open>Python list and string primitives\<close>

text \<open>
  Cursor rows and columns are Python ints, so they are modelled as \<open>int\<close> and every
  list access goes through the functions below: an index counts from the end when it is
  negative and raises IndexError when it is out of range; a slice bound is clamped.
  A string is a list of characters, one \<open>char\<close> for each character of the Python string.
\<close>

definition py_idx :: "'a list \<Rightarrow> int \<Rightarrow> nat option" where
  "py_idx xs i =
     (let n = int (length xs); j = (if i < 0 then n + i else i)
      in if 0 \<le> j \<and> j < n then Some (nat j) else None)"

definition py_clamp :: "'a list \<Rightarrow> int \<Rightarrow> nat" where
  "py_clamp xs i =
     (let n = int (length xs) in if i < 0 then nat (max 0 (n + i)) else nat (min i n))"

text \<open>\<open>xs[:i]\<close>, \<open>xs[i:]\<close>, \<open>xs.insert(i, x)\<close> and \<open>del xs[a:b]\<close>.\<close>

definition py_upto :: "'a list \<Rightarrow> int \<Rightarrow> 'a list" where
  "py_upto xs i = take (py_clamp xs i) xs"

definition py_from :: "'a list \<Rightarrow> int \<Rightarrow> 'a list" where
  "py_from xs i = drop (py_clamp xs i) xs"

definition py_insert :: "'a list \<Rightarrow> int \<Rightarrow> 'a \<Rightarrow> 'a list" where
  "py_insert xs i x = (let k = py_clamp xs i in take k xs @ x # drop k xs)"

definition py_del_slice :: "'a list \<Rightarrow> int \<Rightarrow> int \<Rightarrow> 'a list" where
  "py_del_slice xs a b =
     (let i = py_clamp xs a; j = py_clamp xs b
      in if i < j then take i xs @ drop j xs else xs)"

text \<open>\<open>xs.pop(k)\<close> at an index already resolved by \<open>py_idx\<close>.\<close>

definition pop_at :: "'a list \<Rightarrow> nat \<Rightarrow> 'a list" where
  "pop_at xs k = take k xs @ drop (Suc k) xs"

text \<open>\<open>text.split("\n")\<close> and \<open>"\n".join(lines)\<close>.\<close>

fun split_nl :: "string \<Rightarrow> string list" where
  "split_nl [] = [[]]"
| "split_nl (c # cs) =
     (if c = CHR 0x0A then [] # split_nl cs
      else (c # hd (split_nl cs)) # tl (split_nl cs))"

fun join_nl :: "string list \<Rightarrow> string" where
  "join_nl [] = []"
| "join_nl [l] = l"
| "join_nl (l # ls) = l @ CHR 0x0A # join_nl ls"

text \<open>
  \<open>ch.isalnum() or ch == "_"\<close>. A \<open>char\<close> is a code point from 0 to 255, and
  \<open>str.isalnum\<close> holds there for the ASCII digits and letters (48 to 57, 65 to 90, 97 to 122)
  and for the Latin-1 letters, superscript digits and fractions: 170, 178, 179, 181, 185,
  186, 188 to 190, 192 to 214, 216 to 246 and 248 to 255 (the signs 215 and 247 are not
  alphanumeric). A buffer with a code point from 256 on has no counterpart here.
\<close>

definition isalnum :: "char \<Rightarrow> bool" where
  "isalnum c \<longleftrightarrow>
     (let n = (of_char c :: nat)
      in (48 \<le> n \<and> n \<le> 57) \<or> (65 \<le> n \<and> n \<le> 90) \<or> (97 \<le> n \<and> n \<le> 122) \<or>
         n \<in> set [170, 178, 179, 181, 185, 186, 188, 189, 190] \<or>
         (192 \<le> n \<and> n \<le> 214) \<or> (216 \<le> n \<and> n \<le> 246) \<or> (248 \<le> n))"

definition is_word :: "char \<Rightarrow> bool" where
  "is_word c \<longleftrightarrow> isalnum c \<or> c = CHR ''_''"

section \<open>The editor state (class CodeEditor)\<close>

type_synonym pos = "int \<times> int"
type_synonym snapshot = "string list \<times> int \<times> int"
type_synonym token_line = "(string \<times> string) list"

record editor =
  lines :: "string list"
  cursor_row :: int
  cursor_col :: int
  scroll_row :: int
  scroll_col :: int
  lang_name :: string
  highlighted :: "token_line list"
  highlight_dirty :: bool
  dirty :: bool
  gutter_width :: int
  sel_anchor :: "pos option"
  undo_stack :: "snapshot list"
  redo_stack :: "snapshot list"
  max_undo :: int

definition init :: "string \<Rightarrow> editor" where
  "init lang =
     \<lparr> lines = [[]], cursor_row = 0, cursor_col = 0, scroll_row = 0, scroll_col = 0,
       lang_name = lang, highlighted = [], highlight_dirty = True, dirty = True,
       gutter_width = 4, sel_anchor = None, undo_stack = [], redo_stack = [],
       max_undo = 200 \<rparr>"

text \<open>
  A method either returns a value or raises IndexError; in both cases the fields it has
  already assigned stay assigned, so both outcomes carry the editor.
\<close>

datatype 'a outcome = Returns 'a editor | IndexError editor

fun state_of :: "'a outcome \<Rightarrow> editor" where
  "state_of (Returns v s) = s"
| "state_of (IndexError s) = s"

fun raised :: "'a outcome \<Rightarrow> bool" where
  "raised (Returns v s) = False"
| "raised (IndexError s) = True"

fun and_then :: "'a outcome \<Rightarrow> ('a \<Rightarrow> editor \<Rightarrow> 'b outcome) \<Rightarrow> 'b outcome" where
  "and_then (Returns v s) f = f v s"
| "and_then (IndexError s) f = IndexError s"

definition set_language :: "string \<Rightarrow> editor \<Rightarrow> editor" where
  "set_language lang s = s\<lparr>lang_name := lang, highlight_dirty := True, dirty := True\<rparr>"

definition set_text :: "string \<Rightarrow> editor \<Rightarrow> editor" where
  "set_text text s =
     s\<lparr>lines := (if text \<noteq> [] then split_nl text else [[]]),
       cursor_row := 0, cursor_col := 0, scroll_row := 0, scroll_col := 0,
       sel_anchor := None, undo_stack := [], redo_stack := [],
       highlight_dirty := True, dirty := True\<rparr>"

definition get_text :: "editor \<Rightarrow> string" where
  "get_text s = join_nl (lines s)"

definition line_count :: "editor \<Rightarrow> int" where
  "line_count s = int (length (lines s))"

subsection \<open>Selection\<close>

text \<open>Python's ordering of pairs, \<open>anchor < cursor\<close>.\<close>

definition pos_less :: "pos \<Rightarrow> pos \<Rightarrow> bool" where
  "pos_less a b \<longleftrightarrow> fst a < fst b \<or> (fst a = fst b \<and> snd a < snd b)"

definition sel_range :: "editor \<Rightarrow> (pos \<times> pos) option" where
  "sel_range s =
     (case sel_anchor s of
        None \<Rightarrow> None
      | Some anchor \<Rightarrow>
          (let cursor = (cursor_row s, cursor_col s)
           in if anchor = cursor then None
              else if pos_less anchor cursor then Some (anchor, cursor)
              else Some (cursor, anchor)))"

definition in_selection :: "editor \<Rightarrow> int \<Rightarrow> int \<Rightarrow> bool" where
  "in_selection s row col =
     (case sel_range s of
        None \<Rightarrow> False
      | Some ((sr, sc), (er, ec)) \<Rightarrow>
          if row < sr \<or> row > er then False
          else if row = sr \<and> row = er then sc \<le> col \<and> col < ec
          else if row = sr then col \<ge> sc
          else if row = er then col < ec
          else True)"

subsection \<open>Undo and redo\<close>

text \<open>The stacks grow at the end of the list (\<open>append\<close>, \<open>pop()\<close>); \<open>pop(0)\<close> drops the oldest.\<close>

definition save_undo :: "editor \<Rightarrow> editor" where
  "save_undo s =
     (let st = undo_stack s @ [(lines s, cursor_row s, cursor_col s)]
      in s\<lparr>undo_stack := (if int (length st) > max_undo s then tl st else st),
           redo_stack := []\<rparr>)"

definition undo :: "editor \<Rightarrow> editor" where
  "undo s =
     (if undo_stack s = [] then s
      else (case last (undo_stack s) of
              (ls, row, col) \<Rightarrow>
                s\<lparr>redo_stack := redo_stack s @ [(lines s, cursor_row s, cursor_col s)],
                  undo_stack := butlast (undo_stack s),
                  lines := ls, cursor_row := row, cursor_col := col,
                  sel_anchor := None, highlight_dirty := True, dirty := True\<rparr>))"

definition redo :: "editor \<Rightarrow> editor" where
  "redo s =
     (if redo_stack s = [] then s
      else (case last (redo_stack s) of
              (ls, row, col) \<Rightarrow>
                s\<lparr>undo_stack := undo_stack s @ [(lines s, cursor_row s, cursor_col s)],
                  redo_stack := butlast (redo_stack s),
                  lines := ls, cursor_row := row, cursor_col := col,
                  sel_anchor := None, highlight_dirty := True, dirty := True\<rparr>))"

definition selection_deleted :: "editor \<Rightarrow> string list \<Rightarrow> int \<Rightarrow> int \<Rightarrow> editor" where
  "selection_deleted s ls sr sc =
     s\<lparr>lines := ls, cursor_row := sr, cursor_col := sc, sel_anchor := None,
       highlight_dirty := True, dirty := True\<rparr>"

definition delete_selection :: "editor \<Rightarrow> bool outcome" where
  "delete_selection s =
     (case sel_range s of
        None \<Rightarrow> Returns False s
      | Some ((sr, sc), (er, ec)) \<Rightarrow>
          (let s1 = save_undo s
           in (case py_idx (lines s1) sr of
                 None \<Rightarrow> IndexError s1
               | Some k \<Rightarrow>
                   (if sr = er then
                      (let line = lines s1 ! k
                       in Returns True
                            (selection_deleted s1
                               ((lines s1)[k := py_upto line sc @ py_from line ec]) sr sc))
                    else
                      (case py_idx (lines s1) er of
                         None \<Rightarrow> IndexError s1
                       | Some k2 \<Rightarrow>
                           (let first_part = py_upto (lines s1 ! k) sc;
                                last_part = py_from (lines s1 ! k2) ec;
                                ls = (lines s1)[k := first_part @ last_part]
                            in Returns True
                                 (selection_deleted s1
                                    (py_del_slice ls (sr + 1) (er + 1)) sr sc)))))))"

subsection \<open>Editing operations\<close>

definition edited :: "editor \<Rightarrow> editor" where
  "edited s = s\<lparr>highlight_dirty := True, dirty := True\<rparr>"

definition insert_char :: "string \<Rightarrow> editor \<Rightarrow> unit outcome" where
  "insert_char ch s =
     (case py_idx (lines s) (cursor_row s) of
        None \<Rightarrow> IndexError s
      | Some k \<Rightarrow>
          (let line = lines s ! k
           in Returns ()
                (edited (s\<lparr>lines := (lines s)[k := py_upto line (cursor_col s) @ ch
                                                   @ py_from line (cursor_col s)],
                            cursor_col := cursor_col s + int (length ch)\<rparr>))))"

definition insert_text :: "string \<Rightarrow> editor \<Rightarrow> unit outcome" where
  "insert_text text s =
     (case py_idx (lines s) (cursor_row s) of
        None \<Rightarrow> IndexError s
      | Some k \<Rightarrow>
          (let line = lines s ! k
           in Returns ()
                (edited (s\<lparr>lines := (lines s)[k := py_upto line (cursor_col s) @ text
                                                   @ py_from line (cursor_col s)],
                            cursor_col := cursor_col s + int (length text)\<rparr>))))"

definition backspace :: "editor \<Rightarrow> unit outcome" where
  "backspace s =
     (if cursor_col s > 0 then
        (case py_idx (lines s) (cursor_row s) of
           None \<Rightarrow> IndexError s
         | Some k \<Rightarrow>
             (let line = lines s ! k
              in Returns ()
                   (edited (s\<lparr>lines := (lines s)[k := py_upto line (cursor_col s - 1)
                                                      @ py_from line (cursor_col s)],
                               cursor_col := cursor_col s - 1\<rparr>))))
      else if cursor_row s > 0 then
        (case py_idx (lines s) (cursor_row s - 1) of
           None \<Rightarrow> IndexError s
         | Some kp \<Rightarrow>
             (case py_idx (lines s) (cursor_row s) of
                None \<Rightarrow> IndexError s
              | Some k \<Rightarrow>
                  (let prev_len = int (length (lines s ! kp));
                       ls = (lines s)[kp := lines s ! kp @ lines s ! k]
                   in Returns ()
                        (edited (s\<lparr>lines := pop_at ls k,
                                    cursor_row := cursor_row s - 1,
                                    cursor_col := prev_len\<rparr>)))))
      else Returns () s)"

definition delete :: "editor \<Rightarrow> unit outcome" where
  "delete s =
     (case py_idx (lines s) (cursor_row s) of
        None \<Rightarrow> IndexError s
      | Some k \<Rightarrow>
          (let line = lines s ! k
           in if cursor_col s < int (length line) then
                Returns ()
                  (edited (s\<lparr>lines := (lines s)[k := py_upto line (cursor_col s)
                                                     @ py_from line (cursor_col s + 1)]\<rparr>))
              else if cursor_row s < int (length (lines s)) - 1 then
                (case py_idx (lines s) (cursor_row s + 1) of
                   None \<Rightarrow> IndexError s
                 | Some k1 \<Rightarrow>
                     (let ls = (lines s)[k := line @ lines s ! k1]
                      in Returns () (edited (s\<lparr>lines := pop_at ls k1\<rparr>))))
              else Returns () s))"

definition enter :: "editor \<Rightarrow> unit outcome" where
  "enter s =
     (case py_idx (lines s) (cursor_row s) of
        None \<Rightarrow> IndexError s
      | Some k \<Rightarrow>
          (let line = lines s ! k;
               indent = takeWhile (\<lambda>ch. ch = CHR '' '' \<or> ch = CHR 0x09) line;
               before_cursor = py_upto line (cursor_col s);
               after_cursor = py_from line (cursor_col s);
               ls = (lines s)[k := before_cursor]
           in Returns ()
                (edited (s\<lparr>lines := py_insert ls (cursor_row s + 1) (indent @ after_cursor),
                            cursor_row := cursor_row s + 1,
                            cursor_col := int (length indent)\<rparr>))))"

subsection \<open>Cursor movement\<close>

text \<open>
  \<open>clamp_col\<close> is the shared second half of the vertical moves: the row has been assigned,
  then \<open>min(col, len(lines[row]))\<close> reads the line.
\<close>

definition clamp_col :: "editor \<Rightarrow> unit outcome" where
  "clamp_col s =
     (case py_idx (lines s) (cursor_row s) of
        None \<Rightarrow> IndexError s
      | Some k \<Rightarrow>
          Returns () (s\<lparr>cursor_col := min (cursor_col s) (int (length (lines s ! k))),
                        dirty := True\<rparr>))"

definition move_up :: "editor \<Rightarrow> unit outcome" where
  "move_up s =
     (if cursor_row s > 0 then clamp_col (s\<lparr>cursor_row := cursor_row s - 1\<rparr>)
      else Returns () s)"

definition move_down :: "editor \<Rightarrow> unit outcome" where
  "move_down s =
     (if cursor_row s < int (length (lines s)) - 1
      then clamp_col (s\<lparr>cursor_row := cursor_row s + 1\<rparr>)
      else Returns () s)"

text \<open>\<open>self._cursor_col = len(self._lines[self._cursor_row])\<close>.\<close>

definition to_line_end :: "editor \<Rightarrow> unit outcome" where
  "to_line_end s =
     (case py_idx (lines s) (cursor_row s) of
        None \<Rightarrow> IndexError s
      | Some k \<Rightarrow> Returns () (s\<lparr>cursor_col := int (length (lines s ! k))\<rparr>))"

definition mark_dirty :: "unit \<Rightarrow> editor \<Rightarrow> unit outcome" where
  "mark_dirty u s = Returns () (s\<lparr>dirty := True\<rparr>)"

definition move_left :: "editor \<Rightarrow> unit outcome" where
  "move_left s =
     (if cursor_col s > 0 then
        Returns () (s\<lparr>cursor_col := cursor_col s - 1, dirty := True\<rparr>)
      else if cursor_row s > 0 then
        and_then (to_line_end (s\<lparr>cursor_row := cursor_row s - 1\<rparr>)) mark_dirty
      else Returns () s)"

definition move_right :: "editor \<Rightarrow> unit outcome" where
  "move_right s =
     (case py_idx (lines s) (cursor_row s) of
        None \<Rightarrow> IndexError s
      | Some k \<Rightarrow>
          (if cursor_col s < int (length (lines s ! k)) then
             Returns () (s\<lparr>cursor_col := cursor_col s + 1, dirty := True\<rparr>)
           else if cursor_row s < int (length (lines s)) - 1 then
             Returns () (s\<lparr>cursor_row := cursor_row s + 1, cursor_col := 0, dirty := True\<rparr>)
           else Returns () s))"

text \<open>The four \<open>while\<close> loops of the word movements; \<open>None\<close> is IndexError.\<close>

function skip_nonword_left :: "string \<Rightarrow> int \<Rightarrow> int option" where
  "skip_nonword_left line col =
     (if col > 0 then
        (case py_idx line col of
           None \<Rightarrow> None
         | Some k \<Rightarrow>
             if \<not> is_word (line ! k) then skip_nonword_left line (col - 1) else Some col)
      else Some col)"
  by pat_completeness auto
termination
  by (relation "measure (\<lambda>(line, col). nat col)") auto

declare skip_nonword_left.simps [simp del]

function skip_word_left :: "string \<Rightarrow> int \<Rightarrow> int option" where
  "skip_word_left line col =
     (if col > 0 then
        (case py_idx line (col - 1) of
           None \<Rightarrow> None
         | Some k \<Rightarrow>
             if is_word (line ! k) then skip_word_left line (col - 1) else Some col)
      else Some col)"
  by pat_completeness auto
termination
  by (relation "measure (\<lambda>(line, col). nat col)") auto

declare skip_word_left.simps [simp del]

function skip_word_right :: "string \<Rightarrow> int \<Rightarrow> int option" where
  "skip_word_right line col =
     (if col < int (length line) then
        (case py_idx line col of
           None \<Rightarrow> None
         | Some k \<Rightarrow>
             if is_word (line ! k) then skip_word_right line (col + 1) else Some col)
      else Some col)"
  by pat_completeness auto
termination
  by (relation "measure (\<lambda>(line, col). nat (int (length line) - col))") auto

declare skip_word_right.simps [simp del]

function skip_nonword_right :: "string \<Rightarrow> int \<Rightarrow> int option" where
  "skip_nonword_right line col =
     (if col < int (length line) then
        (case py_idx line col of
           None \<Rightarrow> None
         | Some k \<Rightarrow>
             if \<not> is_word (line ! k) then skip_nonword_right line (col + 1) else Some col)
      else Some col)"
  by pat_completeness auto
termination
  by (relation "measure (\<lambda>(line, col). nat (int (length line) - col))") auto

declare skip_nonword_right.simps [simp del]

definition move_word_left :: "editor \<Rightarrow> unit outcome" where
  "move_word_left s =
     (if cursor_col s > 0 then
        (case py_idx (lines s) (cursor_row s) of
           None \<Rightarrow> IndexError s
         | Some k \<Rightarrow>
             (case skip_nonword_left (lines s ! k) (cursor_col s - 1) of
                None \<Rightarrow> IndexError s
              | Some c1 \<Rightarrow>
                  (case skip_word_left (lines s ! k) c1 of
                     None \<Rightarrow> IndexError s
                   | Some c2 \<Rightarrow> Returns () (s\<lparr>cursor_col := c2, dirty := True\<rparr>))))
      else if cursor_row s > 0 then
        and_then (to_line_end (s\<lparr>cursor_row := cursor_row s - 1\<rparr>)) mark_dirty
      else Returns () (s\<lparr>dirty := True\<rparr>))"

definition move_word_right :: "editor \<Rightarrow> unit outcome" where
  "move_word_right s =
     (case py_idx (lines s) (cursor_row s) of
        None \<Rightarrow> IndexError s
      | Some k \<Rightarrow>
          (if cursor_col s < int (length (lines s ! k)) then
             (case skip_word_right (lines s ! k) (cursor_col s) of
                None \<Rightarrow> IndexError s
              | Some c1 \<Rightarrow>
                  (case skip_nonword_right (lines s ! k) c1 of
                     None \<Rightarrow> IndexError s
                   | Some c2 \<Rightarrow> Returns () (s\<lparr>cursor_col := c2, dirty := True\<rparr>)))
           else if cursor_row s < int (length (lines s)) - 1 then
             Returns () (s\<lparr>cursor_row := cursor_row s + 1, cursor_col := 0, dirty := True\<rparr>)
           else Returns () (s\<lparr>dirty := True\<rparr>)))"

definition page_up :: "editor \<Rightarrow> unit outcome" where
  "page_up s = clamp_col (s\<lparr>cursor_row := max 0 (cursor_row s - 20)\<rparr>)"

definition page_down :: "editor \<Rightarrow> unit outcome" where
  "page_down s =
     clamp_col (s\<lparr>cursor_row := min (int (length (lines s)) - 1) (cursor_row s + 20)\<rparr>)"

subsection \<open>Key dispatch\<close>

text \<open>
  A keystroke is a string with two attributes: \<open>name\<close> (\<open>None\<close> for a plain character)
  and \<open>is_sequence\<close>.
\<close>

record key =
  key_name :: "string option"
  key_str :: string
  is_sequence :: bool

definition shift_names :: "string list" where
  "shift_names = [''kUP2'', ''kDN2'', ''kLFT2'', ''kRIT2'', ''kLFT6'', ''kRIT6'',
                  ''kUP6'', ''kDN6'', ''kHOM2'', ''kEND2'']"

definition consumed :: "unit outcome \<Rightarrow> bool outcome" where
  "consumed r = and_then r (\<lambda>u s. Returns True s)"

definition shift_move :: "string option \<Rightarrow> editor \<Rightarrow> unit outcome" where
  "shift_move name s =
     (if name = Some ''kUP2'' \<or> name = Some ''kUP6'' then move_up s
      else if name = Some ''kDN2'' \<or> name = Some ''kDN6'' then move_down s
      else if name = Some ''kLFT2'' then move_left s
      else if name = Some ''kRIT2'' then move_right s
      else if name = Some ''kLFT6'' then move_word_left s
      else if name = Some ''kRIT6'' then move_word_right s
      else if name = Some ''kHOM2'' then Returns () (s\<lparr>cursor_col := 0, dirty := True\<rparr>)
      else if name = Some ''kEND2'' then and_then (to_line_end s) mark_dirty
      else Returns () s)"

text \<open>Plain Left and Right with an anchor set: jump to one end of the range, if there is one.\<close>

definition collapse_to :: "bool \<Rightarrow> editor \<Rightarrow> editor" where
  "collapse_to to_end s =
     (let s1 = (case sel_range s of
                  None \<Rightarrow> s
                | Some (a, b) \<Rightarrow>
                    (let p = (if to_end then b else a)
                     in s\<lparr>cursor_row := fst p, cursor_col := snd p\<rparr>))
      in s1\<lparr>sel_anchor := None, dirty := True\<rparr>)"

definition handle_key :: "key \<Rightarrow> editor \<Rightarrow> bool outcome" where
  "handle_key key s =
     (let name = key_name key; str = key_str key
      in if name \<in> set (map Some shift_names) then
           consumed (shift_move name
             (if sel_anchor s = None
              then s\<lparr>sel_anchor := Some (cursor_row s, cursor_col s)\<rparr> else s))
         else if name = Some ''kLFT5'' then
           consumed (move_word_left (s\<lparr>sel_anchor := None\<rparr>))
         else if name = Some ''kRIT5'' then
           consumed (move_word_right (s\<lparr>sel_anchor := None\<rparr>))
         else if name = Some ''KEY_UP'' then
           consumed (move_up (s\<lparr>sel_anchor := None\<rparr>))
         else if name = Some ''KEY_DOWN'' then
           consumed (move_down (s\<lparr>sel_anchor := None\<rparr>))
         else if name = Some ''KEY_LEFT'' then
           (if sel_anchor s \<noteq> None then Returns True (collapse_to False s)
            else consumed (move_left s))
         else if name = Some ''KEY_RIGHT'' then
           (if sel_anchor s \<noteq> None then Returns True (collapse_to True s)
            else consumed (move_right s))
         else if name = Some ''KEY_HOME'' then
           Returns True (s\<lparr>sel_anchor := None, cursor_col := 0, dirty := True\<rparr>)
         else if name = Some ''KEY_END'' then
           consumed (and_then (to_line_end (s\<lparr>sel_anchor := None\<rparr>)) mark_dirty)
         else if name = Some ''KEY_PGUP'' then
           consumed (page_up (s\<lparr>sel_anchor := None\<rparr>))
         else if name = Some ''KEY_PGDOWN'' then
           consumed (page_down (s\<lparr>sel_anchor := None\<rparr>))
         else if str = [CHR 0x15] \<or> str = [CHR 0x1A] then Returns True (undo s)
         else if str = [CHR 0x12] \<or> str = [CHR 0x19] then Returns True (redo s)
         else if name = Some ''KEY_BACKSPACE'' then
           and_then (delete_selection s)
             (\<lambda>deleted s1. if deleted then Returns True s1
                             else consumed (backspace (save_undo s1)))
         else if name = Some ''KEY_DELETE'' then
           and_then (delete_selection s)
             (\<lambda>deleted s1. if deleted then Returns True s1
                             else consumed (delete (save_undo s1)))
         else if name = Some ''KEY_ENTER'' then
           and_then (delete_selection (save_undo s)) (\<lambda>deleted s1. consumed (enter s1))
         else if name = Some ''KEY_TAB'' \<or> str = [CHR 0x09] then
           and_then (delete_selection (save_undo s))
             (\<lambda>deleted s1. consumed (insert_text ''    '' s1))
         else if str \<noteq> [] \<and> \<not> is_sequence key then
           and_then (delete_selection (save_undo s))
             (\<lambda>deleted s1. consumed (insert_char str s1))
         else Returns False s)"

subsection \<open>Highlighting\<close>

text \<open>
  A Pygments token type is the path of its names below \<open>Token\<close> (\<open>Token.Name.Builtin\<close> is
  \<open>[Name, Builtin]\<close>); its parent drops the last name and \<open>Token\<close> itself, the empty path,
  is false in a condition.
\<close>

type_synonym token_type = "string list"

definition TOKEN_COLORS :: "(token_type \<times> string) list" where
  "TOKEN_COLORS =
    [([''Keyword''], ''cyan''),
     ([''Keyword'', ''Constant''], ''cyan''),
     ([''Keyword'', ''Declaration''], ''cyan''),
     ([''Keyword'', ''Namespace''], ''cyan''),
     ([''Keyword'', ''Pseudo''], ''cyan''),
     ([''Keyword'', ''Reserved''], ''cyan''),
     ([''Keyword'', ''Type''], ''cyan''),
     ([''Name'', ''Builtin''], ''blue''),
     ([''Name'', ''Builtin'', ''Pseudo''], ''blue''),
     ([''Name'', ''Class''], ''yellow''),
     ([''Name'', ''Decorator''], ''magenta''),
     ([''Name'', ''Exception''], ''yellow''),
     ([''Name'', ''Function''], ''yellow''),
     ([''Name'', ''Function'', ''Magic''], ''yellow''),
     ([''Literal'', ''String''], ''green''),
     ([''Literal'', ''String'', ''Affix''], ''green''),
     ([''Literal'', ''String'', ''Backtick''], ''green''),
     ([''Literal'', ''String'', ''Char''], ''green''),
     ([''Literal'', ''String'', ''Delimiter''], ''green''),
     ([''Literal'', ''String'', ''Doc''], ''green''),
     ([''Literal'', ''String'', ''Double''], ''green''),
     ([''Literal'', ''String'', ''Escape''], ''bright_green''),
     ([''Literal'', ''String'', ''Heredoc''], ''green''),
     ([''Literal'', ''String'', ''Interpol''], ''bright_green''),
     ([''Literal'', ''String'', ''Other''], ''green''),
     ([''Literal'', ''String'', ''Regex''], ''green''),
     ([''Literal'', ''String'', ''Single''], ''green''),
     ([''Literal'', ''String'', ''Symbol''], ''green''),
     ([''Literal'', ''Number''], ''magenta''),
     ([''Literal'', ''Number'', ''Bin''], ''magenta''),
     ([''Literal'', ''Number'', ''Float''], ''magenta''),
     ([''Literal'', ''Number'', ''Hex''], ''magenta''),
     ([''Literal'', ''Number'', ''Integer''], ''magenta''),
     ([''Literal'', ''Number'', ''Oct''], ''magenta''),
     ([''Comment''], ''bright_black''),
     ([''Comment'', ''Hashbang''], ''bright_black''),
     ([''Comment'', ''Multiline''], ''bright_black''),
     ([''Comment'', ''Preproc''], ''bright_black''),
     ([''Comment'', ''PreprocFile''], ''bright_black''),
     ([''Comment'', ''Single''], ''bright_black''),
     ([''Comment'', ''Special''], ''bright_black''),
     ([''Operator''], ''red''),
     ([''Operator'', ''Word''], ''cyan''),
     ([''Punctuation''], ''white''),
     ([''Name'', ''Tag''], ''cyan''),
     ([''Name'', ''Attribute''], ''yellow'')]"

function get_color :: "token_type \<Rightarrow> string" where
  "get_color tt =
     (if tt \<noteq> [] then
        (case map_of TOKEN_COLORS tt of
           Some color \<Rightarrow> color
         | None \<Rightarrow> get_color (butlast tt))
      else [])"
  by pat_completeness auto
termination
  by (relation "measure length") auto

declare get_color.simps [simp del]

text \<open>
  The lexer is outside the repository: \<open>lexf lang text\<close> stands for
  \<open>list(lex(text, self._lexer))\<close>, the lexer being the one made for \<open>lang_name\<close>.
\<close>

type_synonym lexer = "string \<Rightarrow> string \<Rightarrow> (token_type \<times> string) list"

text \<open>The loop over \<open>enumerate(parts)\<close>, on the pair (\<open>_highlighted\<close>, \<open>current_line\<close>).\<close>

fun add_parts ::
  "string \<Rightarrow> nat \<Rightarrow> string list \<Rightarrow> token_line list \<times> token_line
     \<Rightarrow> token_line list \<times> token_line" where
  "add_parts color i [] acc = acc"
| "add_parts color i (part # parts) (hl, cur) =
     (let acc1 = (if i > 0 then (hl @ [cur], []) else (hl, cur));
          cur2 = (if part \<noteq> [] then snd acc1 @ [(color, part)] else snd acc1)
      in add_parts color (Suc i) parts (fst acc1, cur2))"

fun add_tokens ::
  "(token_type \<times> string) list \<Rightarrow> token_line list \<times> token_line
     \<Rightarrow> token_line list \<times> token_line" where
  "add_tokens [] acc = acc"
| "add_tokens ((token_type, val) # tokens) acc =
     add_tokens tokens (add_parts (get_color token_type) 0 (split_nl val) acc)"

definition rehighlight :: "lexer \<Rightarrow> editor \<Rightarrow> editor" where
  "rehighlight lexf s =
     (if \<not> highlight_dirty s then s
      else
        (let tokens = lexf (lang_name s) (join_nl (lines s));
             acc = add_tokens tokens ([], []);
             hl = fst acc @ [snd acc]
         in s\<lparr>highlight_dirty := False,
               highlighted := hl @ replicate (length (lines s) - length hl) []\<rparr>))"

subsection \<open>Rendering\<close>

text \<open>\<open>len(str(n))\<close> for a length \<open>n\<close>.\<close>

function digits :: "nat \<Rightarrow> nat" where
  "digits n = (if n < 10 then 1 else Suc (digits (n div 10)))"
  by pat_completeness auto
termination
  by (relation "measure id") auto

declare digits.simps [simp del]

text \<open>
  \<open>render_prepare\<close> is \<open>render\<close> up to its drawing loop: the highlight cache, the gutter
  width and the scroll offsets. The drawing loop writes cells to the terminal and assigns
  no field; after it \<open>render\<close> clears \<open>dirty\<close>.
\<close>

definition render_prepare :: "lexer \<Rightarrow> int \<Rightarrow> int \<Rightarrow> editor \<Rightarrow> editor" where
  "render_prepare lexf width height s0 =
     (let s = rehighlight lexf s0;
          gw = max 4 (int (digits (length (lines s))) + 2);
          code_width = width - gw
      in s\<lparr>gutter_width := gw,
           scroll_row :=
             (if cursor_row s < scroll_row s then cursor_row s
              else if cursor_row s \<ge> scroll_row s + height then cursor_row s - height + 1
              else scroll_row s),
           scroll_col :=
             (if cursor_col s < scroll_col s then cursor_col s
              else if cursor_col s \<ge> scroll_col s + code_width
                then cursor_col s - code_width + 1
              else scroll_col s)\<rparr>)"

definition render :: "lexer \<Rightarrow> int \<Rightarrow> int \<Rightarrow> int \<Rightarrow> int \<Rightarrow> editor \<Rightarrow> editor" where
  "render lexf x y width height s = (render_prepare lexf width height s)\<lparr>dirty := False\<rparr>"

section \<open>Sequences of editor operations\<close>

text \<open>
  What a screen does with its editor: it hands it keys, resets its text, changes its
  language and renders it. An exception raised by \<open>handle_key\<close> is caught and logged by
  the event loop, which goes on with the editor as the exception left it.
\<close>

datatype op =
    Key key
  | SetText string
  | SetLanguage string
  | Render int int int int

fun apply_op :: "lexer \<Rightarrow> op \<Rightarrow> editor \<Rightarrow> editor" where
  "apply_op lexf (Key k) s = state_of (handle_key k s)"
| "apply_op lexf (SetText t) s = set_text t s"
| "apply_op lexf (SetLanguage l) s = set_language l s"
| "apply_op lexf (Render x y w h) s = render lexf x y w h s"

fun run_ops :: "lexer \<Rightarrow> op list \<Rightarrow> editor \<Rightarrow> editor" where
  "run_ops lexf [] s = s"
| "run_ops lexf (o1 # os) s = run_ops lexf os (apply_op lexf o1 s)"

text \<open>
  A named key and a typed character. The characters of a named key are an escape sequence,
  which \<open>handle_key\<close> never looks at once the name has matched, so they are left empty.
\<close>

definition named :: "string \<Rightarrow> key" where
  "named n = \<lparr>key_name = Some n, key_str = [], is_sequence = True\<rparr>"

definition typed :: "string \<Rightarrow> key" where
  "typed c = \<lparr>key_name = None, key_str = c, is_sequence = False\<rparr>"

definition cursor :: "editor \<Rightarrow> pos" where
  "cursor s = (cursor_row s, cursor_col s)"

text \<open>The buffer invariant of the line buffer.\<close>

definition buffer_inv :: "editor \<Rightarrow> bool" where
  "buffer_inv s \<longleftrightarrow>
     lines s \<noteq> [] \<and> 0 \<le> cursor_row s \<and> cursor_row s < int (length (lines s)) \<and>
     0 \<le> cursor_col s \<and> cursor_col s \<le> int (length (lines s ! nat (cursor_row s)))"

section \<open>Screens and the application (classes Screen and LeetCodeApp)\<close>

text \<open>
  A screen object is named by its identity; the application holds the screen objects and
  the stack of identities, the last one being the active screen. A screen object carries
  the fields of the screen classes that the lifecycle hooks and the background tasks
  assign: \<open>screen_dirty\<close> is the field \<open>dirty\<close> of \<open>Screen\<close>; \<open>loading\<close> is \<open>_loading\<close> of the
  list and the detail screen; \<open>problems\<close> is the length of \<open>_problems\<close>, \<open>total\<close>,
  \<open>list_cursor\<close> and \<open>list_scroll\<close> are \<open>_total\<close>, \<open>_cursor\<close> and \<open>_scroll\<close> of the list
  screen; \<open>detail\<close> tells whether \<open>_detail\<close> of the detail screen is set; \<open>step\<close>, \<open>status\<close>,
  \<open>input_mode\<close> and \<open>busy\<close> are \<open>_step\<close>, \<open>_status\<close>, \<open>_input_mode\<close> and \<open>_busy\<close> of the login
  screen. A field that the class of a screen does not have keeps its initial value. The
  data that a reply carries (the problems, the description, the editor of the detail
  screen) and the menu and the input buffer of the login screen are not represented.
\<close>

datatype screen_kind =
    LoginScreen
  | ProblemListScreen
  | ProblemDetailScreen
  | TestResultScreen
  | SubmissionResultScreen

record screen =
  kind :: screen_kind
  screen_dirty :: bool
  loading :: bool
  problems :: nat
  total :: nat
  list_cursor :: int
  list_scroll :: int
  detail :: bool
  step :: string
  status :: string
  input_mode :: bool
  busy :: bool

text \<open>
  A task created with \<open>asyncio.create_task\<close>, named by the point where it is suspended
  and by the screen object it refers to. \<open>FetchProblemsStart\<close> and \<open>ValidateManualStart\<close> are
  the tasks \<open>_fetch_problems\<close> and \<open>_validate_manual\<close> before their first statement has run;
  \<open>FetchProblems\<close>, \<open>FetchDetail\<close>, \<open>RunTest\<close>, \<open>RunSubmit\<close> and \<open>ValidateManual\<close> await the
  reply of the service; \<open>TryBrowser\<close> is \<open>_try_browser\<close> at any of its awaits before a session
  has been accepted; \<open>LoginSleep\<close> is a login task in \<open>asyncio.sleep(0.5)\<close> after the status
  \<open>Logged in as\<close>; \<open>CheckSession\<close> is a login task that has entered \<open>on_login_result\<close> and
  awaits \<open>validate_session\<close> in \<open>_check_session\<close>; \<open>Relogin\<close> is \<open>_relogin\<close> of
  \<open>show_login_on_auth_error\<close>.
\<close>

datatype task =
    FetchProblemsStart nat
  | FetchProblems nat
  | FetchDetail nat
  | RunTest nat
  | RunSubmit nat
  | TryBrowser nat
  | ValidateManualStart nat
  | ValidateManual nat
  | LoginSleep nat
  | CheckSession
  | Relogin

record app =
  screens :: "nat \<Rightarrow> screen"
  screen_stack :: "nat list"
  running :: bool
  notification :: string
  username :: string
  tasks :: "task list"

text \<open>
  What an awaited call hands back to the task: a value, \<open>AuthenticationError\<close> or another
  exception, the last two with the text of the exception.
\<close>

datatype 'a reply = Returned 'a | AuthenticationError string | Raised string

text \<open>
  What \<open>_try_browser\<close> does when it is resumed: it reports progress with \<open>_set_status\<close> and
  goes on waiting, or \<open>validate_session\<close> has returned a user name, or it gives up with a
  last status message (no browser found, no cookies, session invalid, an exception).
\<close>

datatype browser_event = Progress string | Accepted string | GivenUp string

text \<open>The screen objects as their constructors leave them.\<close>

definition new_screen :: "screen_kind \<Rightarrow> screen" where
  "new_screen k =
     \<lparr> kind = k, screen_dirty = True,
       loading = (k = ProblemListScreen \<or> k = ProblemDetailScreen),
       problems = 0, total = 0, list_cursor = 0, list_scroll = 0, detail = False,
       step = ''method'', status = [], input_mode = False, busy = False \<rparr>"

definition construct :: "nat \<Rightarrow> screen_kind \<Rightarrow> app \<Rightarrow> app" where
  "construct new k a = a\<lparr>screens := (screens a)(new := new_screen k)\<rparr>"

text \<open>Assignments to the fields of the screen object \<open>sid\<close>.\<close>

definition assign :: "nat \<Rightarrow> (screen \<Rightarrow> screen) \<Rightarrow> app \<Rightarrow> app" where
  "assign sid f a = a\<lparr>screens := (screens a)(sid := f (screens a sid))\<rparr>"

definition invalidate :: "nat \<Rightarrow> app \<Rightarrow> app" where
  "invalidate sid a = assign sid (\<lambda>s. s\<lparr>screen_dirty := True\<rparr>) a"

text \<open>\<open>asyncio.create_task\<close>, the end of a task, and a task going on to its next await.\<close>

definition create_task :: "task \<Rightarrow> app \<Rightarrow> app" where
  "create_task t a = a\<lparr>tasks := tasks a @ [t]\<rparr>"

definition finish :: "task \<Rightarrow> app \<Rightarrow> app" where
  "finish t a = a\<lparr>tasks := remove1 t (tasks a)\<rparr>"

definition proceed :: "task \<Rightarrow> task \<Rightarrow> app \<Rightarrow> app" where
  "proceed t t' a = create_task t' (finish t a)"

subsection \<open>The application\<close>

definition current_screen :: "app \<Rightarrow> nat option" where
  "current_screen a = (if screen_stack a \<noteq> [] then Some (last (screen_stack a)) else None)"

definition exit_app :: "app \<Rightarrow> app" where
  "exit_app a = a\<lparr>running := False\<rparr>"

definition notify :: "string \<Rightarrow> app \<Rightarrow> app" where
  "notify msg a =
     (let a1 = a\<lparr>notification := msg\<rparr>
      in case current_screen a1 of None \<Rightarrow> a1 | Some t \<Rightarrow> invalidate t a1)"

text \<open>The step transitions of the login screen.\<close>

definition set_status :: "nat \<Rightarrow> string \<Rightarrow> app \<Rightarrow> app" where
  "set_status sid msg a = invalidate sid (assign sid (\<lambda>s. s\<lparr>status := msg\<rparr>) a)"

definition show_method_step :: "nat \<Rightarrow> app \<Rightarrow> app" where
  "show_method_step sid a =
     invalidate sid
       (assign sid (\<lambda>s. s\<lparr>step := ''method'', status := [], input_mode := False\<rparr>) a)"

definition show_browser_step :: "nat \<Rightarrow> app \<Rightarrow> app" where
  "show_browser_step sid a =
     invalidate sid
       (assign sid (\<lambda>s. s\<lparr>step := ''browser'', status := [], input_mode := False\<rparr>) a)"

definition show_manual_session_step :: "nat \<Rightarrow> app \<Rightarrow> app" where
  "show_manual_session_step sid a =
     invalidate sid
       (assign sid (\<lambda>s. s\<lparr>step := ''manual_session'', input_mode := True, status := []\<rparr>) a)"

text \<open>
  The lifecycle hooks. \<open>on_enter\<close> is overridden by the login, the list and the detail
  screen; the result screens use the one of the base class. No class overrides \<open>on_exit\<close>.
\<close>

definition on_enter :: "nat \<Rightarrow> app \<Rightarrow> app" where
  "on_enter sid a =
     (case kind (screens a sid) of
        LoginScreen \<Rightarrow> show_method_step sid a
      | ProblemListScreen \<Rightarrow>
          (let a1 = invalidate sid a
           in if problems (screens a1 sid) = 0
              then create_task (FetchProblemsStart sid) (assign sid (\<lambda>s. s\<lparr>loading := True\<rparr>) a1)
              else a1)
      | ProblemDetailScreen \<Rightarrow>
          (let a1 = invalidate sid a
           in if \<not> detail (screens a1 sid) then create_task (FetchDetail sid) a1 else a1)
      | TestResultScreen \<Rightarrow> invalidate sid a
      | SubmissionResultScreen \<Rightarrow> invalidate sid a)"

definition on_exit :: "nat \<Rightarrow> app \<Rightarrow> app" where
  "on_exit sid a = a"

definition push_screen :: "nat \<Rightarrow> app \<Rightarrow> app" where
  "push_screen sid a = on_enter sid (a\<lparr>screen_stack := screen_stack a @ [sid]\<rparr>)"

definition pop_screen :: "app \<Rightarrow> app" where
  "pop_screen a =
     (let a1 = (if screen_stack a \<noteq> []
                then on_exit (last (screen_stack a)) (a\<lparr>screen_stack := butlast (screen_stack a)\<rparr>)
                else a)
      in if screen_stack a1 \<noteq> [] then on_enter (last (screen_stack a1)) a1 else exit_app a1)"

definition replace_screen :: "nat \<Rightarrow> app \<Rightarrow> app" where
  "replace_screen sid a =
     push_screen sid
       (if screen_stack a \<noteq> []
        then on_exit (last (screen_stack a)) (a\<lparr>screen_stack := butlast (screen_stack a)\<rparr>)
        else a)"

text \<open>
  \<open>_show_login\<close> and \<open>_goto_problem_list\<close> construct a screen object, whose identity is
  \<open>new\<close>, and push it or put it in the place of the active screen.
\<close>

definition show_login :: "nat \<Rightarrow> app \<Rightarrow> app" where
  "show_login new a = push_screen new (construct new LoginScreen a)"

definition goto_problem_list :: "nat \<Rightarrow> app \<Rightarrow> app" where
  "goto_problem_list new a = replace_screen new (construct new ProblemListScreen a)"

text \<open>
  The loop \<open>while self._screen_stack: old = self._screen_stack.pop(); await old.on_exit()\<close>
  of \<open>_relogin\<close>: the screens leave the stack from the last to the first.
\<close>

definition pop_all :: "app \<Rightarrow> app" where
  "pop_all a = foldr on_exit (screen_stack a) (a\<lparr>screen_stack := []\<rparr>)"

definition show_login_on_auth_error :: "app \<Rightarrow> app" where
  "show_login_on_auth_error a =
     create_task Relogin (notify ''Session expired. Please log in again.'' a)"

definition relogin :: "nat \<Rightarrow> app \<Rightarrow> app" where
  "relogin new a = show_login new (pop_all (finish Relogin a))"

text \<open>
  The resumption of \<open>_check_session\<close> inside \<open>on_login_result\<close>: an exception of
  \<open>validate_session\<close> and a user name both lead to the problem list, no user name to a new
  login screen.
\<close>

definition check_session_done :: "string reply \<Rightarrow> nat \<Rightarrow> app \<Rightarrow> app" where
  "check_session_done r new a =
     (let a0 = finish CheckSession a
      in case r of
           Returned u \<Rightarrow>
             (if u \<noteq> [] then goto_problem_list new (a0\<lparr>username := u\<rparr>) else show_login new a0)
         | AuthenticationError m \<Rightarrow> goto_problem_list new a0
         | Raised e \<Rightarrow> goto_problem_list new a0)"

text \<open>
  The rendering step of the event loop, with a terminal that keeps its size: a dirty active
  screen is rendered and marked clean.
\<close>

definition render_tick :: "app \<Rightarrow> app" where
  "render_tick a =
     (case current_screen a of
        None \<Rightarrow> a
      | Some sid \<Rightarrow>
          (if screen_dirty (screens a sid)
           then assign sid (\<lambda>s. s\<lparr>screen_dirty := False\<rparr>) a
           else a))"

subsection \<open>The problem list screen\<close>

text \<open>
  The key \<open>r\<close> creates the task \<open>_fetch_problems\<close> (so do the paging, search and difficulty
  keys). Enter is \<open>_open_problem\<close>: \<open>paid_only\<close> is that field of the problem under the
  cursor; the detail screen it constructs has the identity \<open>new\<close>.
\<close>

definition refresh :: "nat \<Rightarrow> app \<Rightarrow> app" where
  "refresh sid a = create_task (FetchProblemsStart sid) a"

definition open_problem :: "nat \<Rightarrow> bool \<Rightarrow> nat \<Rightarrow> app \<Rightarrow> app" where
  "open_problem sid paid_only new a =
     (if problems (screens a sid) = 0
         \<or> list_cursor (screens a sid) \<ge> int (problems (screens a sid)) then a
      else if paid_only then notify ''Premium problem -- not available.'' a
      else push_screen new (construct new ProblemDetailScreen a))"

text \<open>
  \<open>_fetch_problems\<close> first sets \<open>_loading\<close> and invalidates, then awaits the problem service;
  the reply is the number of problems returned and the total.
\<close>

definition fetch_problems_start :: "nat \<Rightarrow> app \<Rightarrow> app" where
  "fetch_problems_start sid a =
     proceed (FetchProblemsStart sid) (FetchProblems sid)
       (invalidate sid (assign sid (\<lambda>s. s\<lparr>loading := True\<rparr>) a))"

definition fetch_problems_done :: "nat \<Rightarrow> (nat \<times> nat) reply \<Rightarrow> app \<Rightarrow> app" where
  "fetch_problems_done sid r a =
     (let a0 = finish (FetchProblems sid) a
      in case r of
           Returned (n, tot) \<Rightarrow>
             invalidate sid
               (assign sid (\<lambda>s. s\<lparr>problems := n, total := tot, loading := False,
                                   list_cursor := 0, list_scroll := 0\<rparr>) a0)
         | AuthenticationError m \<Rightarrow>
             show_login_on_auth_error (assign sid (\<lambda>s. s\<lparr>loading := False\<rparr>) a0)
         | Raised e \<Rightarrow>
             invalidate sid
               (notify (''Error: '' @ e) (assign sid (\<lambda>s. s\<lparr>loading := False\<rparr>) a0)))"

subsection \<open>The problem detail screen\<close>

text \<open>
  \<open>_fetch_detail\<close> awaits the problem service at once. On a reply it sets \<open>_detail\<close>, builds
  the description and the editor, clears \<open>_loading\<close> and invalidates.
\<close>

definition fetch_detail_done :: "nat \<Rightarrow> unit reply \<Rightarrow> app \<Rightarrow> app" where
  "fetch_detail_done sid r a =
     (let a0 = finish (FetchDetail sid) a
      in case r of
           Returned v \<Rightarrow>
             invalidate sid (assign sid (\<lambda>s. s\<lparr>detail := True, loading := False\<rparr>) a0)
         | AuthenticationError m \<Rightarrow>
             show_login_on_auth_error (assign sid (\<lambda>s. s\<lparr>loading := False\<rparr>) a0)
         | Raised e \<Rightarrow>
             invalidate sid
               (notify (''Error: '' @ e) (assign sid (\<lambda>s. s\<lparr>loading := False\<rparr>) a0)))"

text \<open>
  Ctrl+T and Ctrl+S: \<open>_action_test\<close> and \<open>_action_submit\<close>; \<open>blank\<close> tells whether the code of
  the editor is empty after \<open>strip()\<close>. The task \<open>_run\<close> awaits the submission service at once;
  on a reply it constructs the result screen, whose identity is \<open>new\<close>, and pushes it.
\<close>

definition action_test :: "nat \<Rightarrow> bool \<Rightarrow> app \<Rightarrow> app" where
  "action_test sid blank a =
     (if \<not> detail (screens a sid) then a
      else if blank then notify ''No code to test.'' a
      else create_task (RunTest sid) (invalidate sid (notify ''Running tests...'' a)))"

definition action_submit :: "nat \<Rightarrow> bool \<Rightarrow> app \<Rightarrow> app" where
  "action_submit sid blank a =
     (if \<not> detail (screens a sid) then a
      else if blank then notify ''No code to submit.'' a
      else create_task (RunSubmit sid) (invalidate sid (notify ''Submitting...'' a)))"

definition test_done :: "nat \<Rightarrow> unit reply \<Rightarrow> nat \<Rightarrow> app \<Rightarrow> app" where
  "test_done sid r new a =
     (let a0 = finish (RunTest sid) a
      in case r of
           Returned v \<Rightarrow> push_screen new (construct new TestResultScreen a0)
         | AuthenticationError m \<Rightarrow> show_login_on_auth_error a0
         | Raised e \<Rightarrow> invalidate sid (notify (''Test error: '' @ e) a0))"

definition submit_done :: "nat \<Rightarrow> unit reply \<Rightarrow> nat \<Rightarrow> app \<Rightarrow> app" where
  "submit_done sid r new a =
     (let a0 = finish (RunSubmit sid) a
      in case r of
           Returned v \<Rightarrow> push_screen new (construct new SubmissionResultScreen a0)
         | AuthenticationError m \<Rightarrow> show_login_on_auth_error a0
         | Raised e \<Rightarrow> invalidate sid (notify (''Submit error: '' @ e) a0))"

subsection \<open>The login screen\<close>

text \<open>
  Enter on a browser of the menu and Enter on the second cookie value set \<open>_busy\<close> and create
  the tasks \<open>_try_browser\<close> and \<open>_validate_manual\<close>.
\<close>

definition select_browser :: "nat \<Rightarrow> app \<Rightarrow> app" where
  "select_browser sid a = create_task (TryBrowser sid) (assign sid (\<lambda>s. s\<lparr>busy := True\<rparr>) a)"

definition submit_csrf :: "nat \<Rightarrow> app \<Rightarrow> app" where
  "submit_csrf sid a =
     create_task (ValidateManualStart sid)
       (assign sid (\<lambda>s. s\<lparr>input_mode := False, busy := True\<rparr>) a)"

definition try_browser_resumed :: "nat \<Rightarrow> browser_event \<Rightarrow> app \<Rightarrow> app" where
  "try_browser_resumed sid ev a =
     (case ev of
        Progress msg \<Rightarrow> set_status sid msg a
      | Accepted u \<Rightarrow>
          proceed (TryBrowser sid) (LoginSleep sid) (set_status sid (''Logged in as '' @ u) a)
      | GivenUp msg \<Rightarrow>
          show_browser_step sid
            (assign sid (\<lambda>s. s\<lparr>busy := False\<rparr>) (set_status sid msg (finish (TryBrowser sid) a))))"

definition validate_manual_start :: "nat \<Rightarrow> app \<Rightarrow> app" where
  "validate_manual_start sid a =
     proceed (ValidateManualStart sid) (ValidateManual sid)
       (set_status sid ''Validating session...'' a)"

definition manual_rejected :: "nat \<Rightarrow> string \<Rightarrow> app \<Rightarrow> app" where
  "manual_rejected sid msg a =
     show_manual_session_step sid (assign sid (\<lambda>s. s\<lparr>busy := False\<rparr>) (set_status sid msg a))"

definition validate_manual_done :: "nat \<Rightarrow> string reply \<Rightarrow> app \<Rightarrow> app" where
  "validate_manual_done sid r a =
     (let a0 = finish (ValidateManual sid) a
      in case r of
           Returned u \<Rightarrow>
             (if u \<noteq> []
              then create_task (LoginSleep sid) (set_status sid (''Logged in as '' @ u) a0)
              else manual_rejected sid ''Invalid cookies. Try again.'' a0)
         | AuthenticationError m \<Rightarrow> manual_rejected sid (''Error: '' @ m) a0
         | Raised e \<Rightarrow> manual_rejected sid (''Error: '' @ e) a0)"

text \<open>
  After the sleep both login tasks clear \<open>_busy\<close> and call \<open>on_login_result\<close> with the
  credentials, which stores them and awaits \<open>validate_session\<close> in \<open>_check_session\<close>.
\<close>

definition login_sleep_done :: "nat \<Rightarrow> app \<Rightarrow> app" where
  "login_sleep_done sid a =
     proceed (LoginSleep sid) CheckSession (assign sid (\<lambda>s. s\<lparr>busy := False\<rparr>) a)"

subsection \<open>The wrapper of the base class\<close>

text \<open>
  \<open>run_async\<close> wraps a coroutine in \<open>try: await coro finally: self.invalidate()\<close>; no screen
  calls it. \<open>run_async_done coro sid a\<close> is the completion of that wrapper for the screen
  \<open>sid\<close>: the last steps of the coroutine, \<open>coro\<close>, then the \<open>finally\<close> block.
\<close>

definition run_async_done :: "(app \<Rightarrow> app) \<Rightarrow> nat \<Rightarrow> app \<Rightarrow> app" where
  "run_async_done coro sid a = invalidate sid (coro a)"

section \<open>Predicates used in the statements\<close>

text \<open>
  \<open>only_cursor_changed s t\<close>: every field other than the cursor position, the selection
  anchor and the render-dirty flag has the same value in \<open>t\<close> as in \<open>s\<close>.
\<close>

definition only_cursor_changed :: "editor \<Rightarrow> editor \<Rightarrow> bool" where
  "only_cursor_changed s t \<longleftrightarrow>
     lines t = lines s \<and> scroll_row t = scroll_row s \<and> scroll_col t = scroll_col s \<and>
     lang_name t = lang_name s \<and> highlighted t = highlighted s \<and>
     highlight_dirty t = highlight_dirty s \<and> gutter_width t = gutter_width s \<and>
     undo_stack t = undo_stack s \<and> redo_stack t = redo_stack s \<and> max_undo t = max_undo s"

text \<open>The key names of the plain cursor movements, in the order \<open>handle_key\<close> tests them.\<close>

definition movement_names :: "string list" where
  "movement_names = [''kLFT5'', ''kRIT5'', ''KEY_UP'', ''KEY_DOWN'', ''KEY_LEFT'', ''KEY_RIGHT'',
                     ''KEY_HOME'', ''KEY_END'', ''KEY_PGUP'', ''KEY_PGDOWN'']"

text \<open>The snapshot \<open>(list(self._lines), self._cursor_row, self._cursor_col)\<close> of a state.\<close>

definition snap :: "editor \<Rightarrow> snapshot" where
  "snap s = (lines s, cursor_row s, cursor_col s)"

text \<open>\<open>saved s t\<close>: the newest entry of the undo stack of \<open>t\<close> is the snapshot of \<open>s\<close>.\<close>

definition saved :: "editor \<Rightarrow> editor \<Rightarrow> bool" where
  "saved s t \<longleftrightarrow> undo_stack t \<noteq> [] \<and> last (undo_stack t) = snap s"

text \<open>\<open>stacks_kept s t\<close>: both stacks and the depth limit are the same in \<open>t\<close> as in \<open>s\<close>.\<close>

definition stacks_kept :: "editor \<Rightarrow> editor \<Rightarrow> bool" where
  "stacks_kept s t \<longleftrightarrow>
     undo_stack t = undo_stack s \<and> redo_stack t = redo_stack s \<and> max_undo t = max_undo s"

text \<open>
  \<open>edit_key k\<close>: the key passes the movement and the undo/redo tests of \<open>handle_key\<close> and is
  taken by one of its editing branches (backspace, delete, enter, tab, character insertion).
\<close>

definition edit_key :: "key \<Rightarrow> bool" where
  "edit_key k \<longleftrightarrow>
     key_name k \<notin> set (map Some (shift_names @ movement_names)) \<and>
     key_str k \<notin> set [[CHR 0x15], [CHR 0x1A], [CHR 0x12], [CHR 0x19]] \<and>
     (key_name k \<in> set (map Some [''KEY_BACKSPACE'', ''KEY_DELETE'', ''KEY_ENTER'', ''KEY_TAB''])
      \<or> key_str k = [CHR 0x09] \<or> (key_str k \<noteq> [] \<and> \<not> is_sequence k))"

text \<open>The bound on the two stacks: the depth limit is 200 and they hold 200 entries together.\<close>

definition stacks_bounded :: "editor \<Rightarrow> bool" where
  "stacks_bounded s \<longleftrightarrow>
     max_undo s = 200 \<and> length (undo_stack s) + length (redo_stack s) \<le> 200"

text \<open>Typing the character \<open>a\<close> \<open>n\<close> times.\<close>

definition typing :: "nat \<Rightarrow> op list" where
  "typing n = replicate n (Key (typed ''a''))"


text \<open>The text of a line of the highlight cache: its fragments put together.\<close>

definition flat :: "token_line \<Rightarrow> string" where
  "flat toks = concat (map snd toks)"

text \<open>
  The texts of the lines that the loop of \<open>_rehighlight\<close> has built so far: the finished
  lines and the current one.
\<close>

definition line_texts :: "token_line list \<times> token_line \<Rightarrow> string list" where
  "line_texts acc = map flat (fst acc) @ [flat (snd acc)]"

text \<open>No line of the buffer contains a line break.\<close>

definition no_newline :: "string list \<Rightarrow> bool" where
  "no_newline ls \<longleftrightarrow> (\<forall>l \<in> set ls. CHR 0x0A \<notin> set l)"

text \<open>A position of the buffer: a row of the buffer and a column of that row, its end included.\<close>

definition valid_pos :: "string list \<Rightarrow> pos \<Rightarrow> bool" where
  "valid_pos ls p \<longleftrightarrow>
     0 \<le> fst p \<and> fst p < int (length ls) \<and> 0 \<le> snd p \<and>
     snd p \<le> int (length (ls ! nat (fst p)))"

text \<open>
  The index in \<open>get_text()\<close> of a position: the lines before its row, each with its line
  break, then the column.
\<close>

definition text_offset :: "string list \<Rightarrow> pos \<Rightarrow> nat" where
  "text_offset ls p =
     sum_list (map (\<lambda>l. Suc (length l)) (take (nat (fst p)) ls)) + nat (snd p)"

text \<open>
  What the event loop puts on the terminal: the active screen object with its fields, and
  the notification.
\<close>

definition visible :: "app \<Rightarrow> (nat \<times> screen) option \<times> string" where
  "visible a = (map_option (\<lambda>t. (t, screens a t)) (current_screen a), notification a)"

text \<open>\<open>others_kept X a b\<close>: every screen object outside \<open>X\<close> is in \<open>b\<close> as it is in \<open>a\<close>.\<close>

definition others_kept :: "nat set \<Rightarrow> app \<Rightarrow> app \<Rightarrow> bool" where
  "others_kept X a b \<longleftrightarrow> (\<forall>t. t \<notin> X \<longrightarrow> screens b t = screens a t)"

text \<open>
  \<open>own_only sid a b\<close>: from \<open>a\<close> to \<open>b\<close> nothing but the fields of the screen object \<open>sid\<close> and
  the set of pending tasks has changed.
\<close>

definition own_only :: "nat \<Rightarrow> app \<Rightarrow> app \<Rightarrow> bool" where
  "own_only sid a b \<longleftrightarrow>
     screen_stack b = screen_stack a \<and> running b = running a \<and>
     notification b = notification a \<and> username b = username a \<and> others_kept {sid} a b"

text \<open>
  \<open>notified msg sid a b\<close>: from \<open>a\<close> to \<open>b\<close> the notification has become \<open>msg\<close> and the active
  screen has been marked dirty; the stack is the same and no screen object other than the
  active one and \<open>sid\<close> has changed.
\<close>

definition notified :: "string \<Rightarrow> nat \<Rightarrow> app \<Rightarrow> app \<Rightarrow> bool" where
  "notified msg sid a b \<longleftrightarrow>
     notification b = msg \<and> screen_stack b = screen_stack a \<and> running b = running a \<and>
     (\<forall>t. current_screen a = Some t \<longrightarrow> screen_dirty (screens b t)) \<and>
     others_kept (insert sid (set_option (current_screen a))) a b"

text \<open>
  \<open>pushed k new a b\<close>: from \<open>a\<close> to \<open>b\<close> a new screen object of class \<open>k\<close> has been put on top
  of the stack and is the active screen; no other screen object has changed.
\<close>

definition pushed :: "screen_kind \<Rightarrow> nat \<Rightarrow> app \<Rightarrow> app \<Rightarrow> bool" where
  "pushed k new a b \<longleftrightarrow>
     screen_stack b = screen_stack a @ [new] \<and> current_screen b = Some new \<and>
     kind (screens b new) = k \<and> screen_dirty (screens b new) \<and> others_kept {new} a b"

text \<open>
  \<open>quiet sid a b\<close>: from \<open>a\<close> to \<open>b\<close> only the screen object \<open>sid\<close> and the pending tasks have
  changed, and what is on the terminal is the same.
\<close>

definition quiet :: "nat \<Rightarrow> app \<Rightarrow> app \<Rightarrow> bool" where
  "quiet sid a b \<longleftrightarrow> own_only sid a b \<and> visible b = visible a"

section \<open>Example states\<close>

definition two_sum :: editor where
  "two_sum = set_text (''two'' @ [CHR 0x0A] @ ''sum'') (init ''python'')"

text \<open>The same buffer after Shift+Right: the first character is selected.\<close>

definition two_sum_selected :: editor where
  "two_sum_selected = state_of (handle_key (named ''kRIT2'') two_sum)"

text \<open>A lexer that returns the whole text as one token.\<close>

definition plain_lexer :: lexer where
  "plain_lexer lang text = [([''Text''], text)]"

text \<open>
  The buffer \<open>abcdef\<close> with the columns 2 to 5 selected: two plain Right, three Shift+Right.
\<close>

definition abcdef_selected :: editor where
  "abcdef_selected =
     run_ops plain_lexer
       [SetText ''abcdef'', Key (named ''KEY_RIGHT''), Key (named ''KEY_RIGHT''),
        Key (named ''kRIT2''), Key (named ''kRIT2''), Key (named ''kRIT2'')]
       (init ''python'')"

text \<open>
  A Shift+Right at the end of the last line sets the anchor without moving the cursor;
  Backspace then shortens the line and plain Right goes to the anchor. In the second
  sequence Shift+Home sets the anchor at the start of the second line, Backspace joins
  the two lines and plain Right goes to the anchor.
\<close>

definition stale_anchor_keys :: "op list" where
  "stale_anchor_keys =
     [SetText ''abc'', Key (named ''KEY_END''), Key (named ''kRIT2''),
      Key (named ''KEY_BACKSPACE''), Key (named ''KEY_RIGHT'')]"

definition stale_row_keys :: "op list" where
  "stale_row_keys =
     [SetText (''a'' @ [CHR 0x0A] @ ''b''), Key (named ''KEY_DOWN''), Key (named ''kHOM2''),
      Key (named ''KEY_BACKSPACE''), Key (named ''KEY_RIGHT'')]"

text \<open>
  States with a stale anchor and an active selection. In the first, Shift+Home at the start
  of the second line sets the anchor \<open>(1,0)\<close> and Backspace joins the two lines; in the
  second, Shift+End at the end of the first line sets the anchor \<open>(0,3)\<close>, Backspace
  shortens that line and Shift+Down moves the cursor to the second line.
\<close>

definition stale_range_state :: editor where
  "stale_range_state =
     run_ops plain_lexer
       [SetText (''a'' @ [CHR 0x0A] @ ''b''), Key (named ''KEY_DOWN''), Key (named ''kHOM2''),
        Key (named ''KEY_BACKSPACE'')]
       (init ''python'')"

definition stale_start_state :: editor where
  "stale_start_state =
     run_ops plain_lexer
       [SetText (''abc'' @ [CHR 0x0A] @ ''d''), Key (named ''KEY_END''), Key (named ''kEND2''),
        Key (named ''KEY_BACKSPACE''), Key (named ''kDN2'')]
       (init ''python'')"

text \<open>
  The application after \<open>__init__\<close> and the first statement of \<open>run\<close>; no screen object has
  been constructed, and the store holds a login screen object under every identity.
\<close>

definition init_app :: app where
  "init_app =
     \<lparr> screens = (\<lambda>sid. new_screen LoginScreen), screen_stack = [], running = True,
       notification = [], username = [], tasks = [] \<rparr>"

text \<open>
  A session: the problem list 0 is shown and its fetch returns 50 problems; the detail
  screen 1 is opened and its fetch returns; Ctrl+T starts a test run; Esc pops the detail
  screen, and the loop renders the list.
\<close>

definition test_pending :: app where
  "test_pending =
     action_test 1 False
       (render_tick
          (fetch_detail_done 1 (Returned ())
             (open_problem 0 False 1
                (render_tick
                   (fetch_problems_done 0 (Returned (50, 3000))
                      (fetch_problems_start 0 (goto_problem_list 0 init_app)))))))"

definition detail_popped :: app where
  "detail_popped = render_tick (pop_screen test_pending)"


text \<open>
  The buffer \<open>["two", "sum"]\<close> with a selection from \<open>(0,1)\<close> to \<open>(1,2)\<close>: plain Right,
  Shift+Down, Shift+Right.
\<close>

definition two_sum_rows_selected :: editor where
  "two_sum_rows_selected =
     run_ops plain_lexer
       [Key (named ''KEY_RIGHT''), Key (named ''kDN2''), Key (named ''kRIT2'')] two_sum"

section \<open>Word movement on two lines\<close>

text \<open>
  C5, as the specification states it: on the buffer \<open>["two", "sum"]\<close> with the cursor at
  \<open>(0,0)\<close>, a first \<open>move_word_right\<close> reaches \<open>(0,3)\<close> and a second one reaches \<open>(1,3)\<close>.
  The second part fails: \<open>_move_word_right\<close> is an \<open>if\<close>/\<open>elif\<close>, so a move that starts
  at the end of a line only crosses to the start of the next line.
\<close>

theorem C5_second_move_counterexample:
  "\<not> (cursor (state_of (move_word_right two_sum)) = (0, 3) \<and>
      cursor (state_of (move_word_right (state_of (move_word_right two_sum)))) = (1, 3))"
  by code_simp

text \<open>
  C5, amended: on the buffer \<open>["two", "sum"]\<close> with the cursor at \<open>(0,0)\<close>, the first
  \<open>move_word_right\<close> moves the cursor to \<open>(0,3)\<close>, the second one crosses into the next line
  and stops at its start \<open>(1,0)\<close>, and a third one skips to the end of "sum", \<open>(1,3)\<close>.
  None of the three raises and the lines are unchanged.
\<close>

theorem C5_word_right_three_steps:
  "lines two_sum = [''two'', ''sum''] \<and> cursor two_sum = (0, 0) \<and>
   (let r1 = move_word_right two_sum;
        r2 = move_word_right (state_of r1);
        r3 = move_word_right (state_of r2)
    in \<not> raised r1 \<and> cursor (state_of r1) = (0, 3) \<and>
       \<not> raised r2 \<and> cursor (state_of r2) = (1, 0) \<and>
       \<not> raised r3 \<and> cursor (state_of r3) = (1, 3) \<and>
       lines (state_of r3) = [''two'', ''sum''])"
  by code_simp

section \<open>Cursor movement changes nothing but the cursor\<close>

lemma occ_refl: "only_cursor_changed s s"
  by (simp add: only_cursor_changed_def)

lemma occ_trans:
  "only_cursor_changed s t \<Longrightarrow> only_cursor_changed t u \<Longrightarrow> only_cursor_changed s u"
  by (simp add: only_cursor_changed_def)

lemma occ_consumed: "state_of (consumed r) = state_of r"
  by (cases r) (simp_all add: consumed_def)

lemma occ_clamp_col: "only_cursor_changed s (state_of (clamp_col s))"
  by (simp add: only_cursor_changed_def clamp_col_def split: option.splits)

lemma occ_to_line_end: "only_cursor_changed s (state_of (and_then (to_line_end s) mark_dirty))"
  by (simp add: only_cursor_changed_def to_line_end_def mark_dirty_def split: option.splits)

lemma occ_move_up: "only_cursor_changed s (state_of (move_up s))"
  by (simp add: only_cursor_changed_def move_up_def clamp_col_def split: option.splits)

lemma occ_move_down: "only_cursor_changed s (state_of (move_down s))"
  by (simp add: only_cursor_changed_def move_down_def clamp_col_def split: option.splits)

lemma occ_move_left: "only_cursor_changed s (state_of (move_left s))"
  by (simp add: only_cursor_changed_def move_left_def to_line_end_def mark_dirty_def split: option.splits)

lemma occ_move_right: "only_cursor_changed s (state_of (move_right s))"
  by (simp add: only_cursor_changed_def move_right_def split: option.splits)


lemma occ_move_word_left: "only_cursor_changed s (state_of (move_word_left s))"
  by (simp add: only_cursor_changed_def move_word_left_def to_line_end_def mark_dirty_def split: option.splits)

lemma occ_move_word_right: "only_cursor_changed s (state_of (move_word_right s))"
  by (simp add: only_cursor_changed_def move_word_right_def split: option.splits)

lemma occ_page_up: "only_cursor_changed s (state_of (page_up s))"
  by (simp add: only_cursor_changed_def page_up_def clamp_col_def split: option.splits)

lemma occ_page_down: "only_cursor_changed s (state_of (page_down s))"
  by (simp add: only_cursor_changed_def page_down_def clamp_col_def split: option.splits)


lemma occ_shift_move: "only_cursor_changed s (state_of (shift_move n s))"
  by (simp add: shift_move_def occ_move_up occ_move_down occ_move_left occ_move_right
      occ_move_word_left occ_move_word_right occ_to_line_end)
     (simp add: only_cursor_changed_def)

lemma occ_collapse: "only_cursor_changed s (collapse_to b s)"
  by (simp add: collapse_to_def only_cursor_changed_def Let_def split: option.splits prod.splits)

lemma occ_anchor: "only_cursor_changed s (s\<lparr>sel_anchor := a\<rparr>)"
  by (simp add: only_cursor_changed_def)

lemmas occ_anchor_then = occ_trans [OF occ_anchor]

lemma handle_key_shift:
  "key_name k \<in> set (map Some shift_names) \<Longrightarrow>
   handle_key k s = consumed (shift_move (key_name k)
             (if sel_anchor s = None
              then s\<lparr>sel_anchor := Some (cursor_row s, cursor_col s)\<rparr> else s))"
  by (simp add: handle_key_def)

lemma occ_handle_shift:
  assumes "key_name k \<in> set (map Some shift_names)"
  shows "only_cursor_changed s (state_of (handle_key k s))"
  unfolding handle_key_shift [OF assms] occ_consumed
  by (simp add: occ_shift_move occ_anchor_then [OF occ_shift_move])



lemma occ_handle_plain:
  assumes "key_name k \<in> set (map Some movement_names)"
  shows "only_cursor_changed s (state_of (handle_key k s))"
proof -
  from assms consider
      "key_name k = Some ''kLFT5''" | "key_name k = Some ''kRIT5''"
    | "key_name k = Some ''KEY_UP''" | "key_name k = Some ''KEY_DOWN''"
    | "key_name k = Some ''KEY_LEFT''" | "key_name k = Some ''KEY_RIGHT''"
    | "key_name k = Some ''KEY_HOME''" | "key_name k = Some ''KEY_END''"
    | "key_name k = Some ''KEY_PGUP''" | "key_name k = Some ''KEY_PGDOWN''"
    by (auto simp: movement_names_def)
  then show ?thesis
  proof cases
    case 1 then show ?thesis
      by (simp add: handle_key_def shift_names_def occ_consumed occ_anchor_then [OF occ_move_word_left])
  next
    case 2 then show ?thesis
      by (simp add: handle_key_def shift_names_def occ_consumed occ_anchor_then [OF occ_move_word_right])
  next
    case 3 then show ?thesis
      by (simp add: handle_key_def shift_names_def occ_consumed occ_anchor_then [OF occ_move_up])
  next
    case 4 then show ?thesis
      by (simp add: handle_key_def shift_names_def occ_consumed occ_anchor_then [OF occ_move_down])
  next
    case 5 then show ?thesis
      by (simp add: handle_key_def shift_names_def occ_consumed occ_collapse occ_move_left)
  next
    case 6 then show ?thesis
      by (simp add: handle_key_def shift_names_def occ_consumed occ_collapse occ_move_right)
  next
    case 7 then show ?thesis
      by (simp add: handle_key_def shift_names_def only_cursor_changed_def)
  next
    case 8 then show ?thesis
      by (simp add: handle_key_def shift_names_def occ_consumed occ_anchor_then [OF occ_to_line_end])
  next
    case 9 then show ?thesis
      by (simp add: handle_key_def shift_names_def occ_consumed occ_anchor_then [OF occ_page_up])
  next
    case 10 then show ?thesis
      by (simp add: handle_key_def shift_names_def occ_consumed occ_anchor_then [OF occ_page_down])
  qed
qed

text \<open>
  C10: every pure cursor movement (up, down, left, right, word-left, word-right, home, end,
  page up, page down, through \<open>handle_key\<close> or as the method itself, and the shifted
  variants too) leaves the buffer lines, \<open>get_text()\<close>, the undo stack, the redo stack and
  the highlight-dirty flag unchanged, whether it returns or raises; only the cursor
  position, the selection anchor and the render-dirty flag may change.
\<close>

theorem C10_movement_frame:
  assumes "key_name k \<in> set (map Some (movement_names @ shift_names))"
  shows "lines (state_of (handle_key k s)) = lines s \<and>
         get_text (state_of (handle_key k s)) = get_text s \<and>
         undo_stack (state_of (handle_key k s)) = undo_stack s \<and>
         redo_stack (state_of (handle_key k s)) = redo_stack s \<and>
         highlight_dirty (state_of (handle_key k s)) = highlight_dirty s \<and>
         only_cursor_changed s (state_of (handle_key k s)) \<and>
         only_cursor_changed s (state_of (move_up s)) \<and>
         only_cursor_changed s (state_of (move_down s)) \<and>
         only_cursor_changed s (state_of (move_left s)) \<and>
         only_cursor_changed s (state_of (move_right s)) \<and>
         only_cursor_changed s (state_of (move_word_left s)) \<and>
         only_cursor_changed s (state_of (move_word_right s)) \<and>
         only_cursor_changed s (state_of (page_up s)) \<and>
         only_cursor_changed s (state_of (page_down s))"
proof -
  have "only_cursor_changed s (state_of (handle_key k s))"
    using assms occ_handle_shift [of k s] occ_handle_plain [of k s] by auto
  then show ?thesis
    by (simp add: only_cursor_changed_def get_text_def occ_move_up [unfolded only_cursor_changed_def]
        occ_move_down [unfolded only_cursor_changed_def] occ_move_left [unfolded only_cursor_changed_def]
        occ_move_right [unfolded only_cursor_changed_def]
        occ_move_word_left [unfolded only_cursor_changed_def]
        occ_move_word_right [unfolded only_cursor_changed_def]
        occ_page_up [unfolded only_cursor_changed_def] occ_page_down [unfolded only_cursor_changed_def])
qed

theorem C10_movement_frame_witness:
  "key_name (named ''KEY_DOWN'') \<in> set (map Some (movement_names @ shift_names)) \<and>
   lines (state_of (handle_key (named ''KEY_DOWN'') two_sum)) = [''two'', ''sum''] \<and>
   undo_stack (state_of (handle_key (named ''KEY_DOWN'') two_sum)) = [] \<and>
   cursor (state_of (handle_key (named ''KEY_DOWN'') two_sum)) = (1, 0)"
proof -
  have h: "key_name (named ''KEY_DOWN'') \<in> set (map Some (movement_names @ shift_names))"
    by (simp add: named_def movement_names_def)
  have c: "cursor (state_of (handle_key (named ''KEY_DOWN'') two_sum)) = (1, 0)"
    by code_simp
  have l: "lines two_sum = [''two'', ''sum'']" "undo_stack two_sum = []"
    by code_simp+
  from C10_movement_frame [OF h, of two_sum] show ?thesis
    using h c l by simp
qed

section \<open>Undo and redo round trip\<close>

lemma saved_save_undo: "0 < max_undo s \<Longrightarrow> saved s (save_undo s)"
  by (cases "undo_stack s") (auto simp: saved_def save_undo_def snap_def Let_def)

lemma snap_save_undo: "snap (save_undo s) = snap s"
  by (simp add: snap_def save_undo_def Let_def)

lemma max_undo_save_undo: "max_undo (save_undo s) = max_undo s"
  by (simp add: save_undo_def Let_def)

lemma kept_insert_char: "stacks_kept s (state_of (insert_char c s))"
  by (simp add: stacks_kept_def insert_char_def edited_def Let_def split: option.splits)

lemma kept_insert_text: "stacks_kept s (state_of (insert_text c s))"
  by (simp add: stacks_kept_def insert_text_def edited_def Let_def split: option.splits)

lemma kept_backspace: "stacks_kept s (state_of (backspace s))"
  by (simp add: stacks_kept_def backspace_def edited_def Let_def split: option.splits)

lemma kept_delete: "stacks_kept s (state_of (delete s))"
  by (simp add: stacks_kept_def delete_def edited_def Let_def split: option.splits)

lemma kept_enter: "stacks_kept s (state_of (enter s))"
  by (simp add: stacks_kept_def enter_def edited_def Let_def split: option.splits)

lemma delete_selection_inactive: "sel_range s = None \<Longrightarrow> delete_selection s = Returns False s"
  by (simp add: delete_selection_def)

lemma delete_selection_active:
  assumes "sel_range s = Some ((sr, sc), (er, ec))"
  shows "(\<exists>t. delete_selection s = Returns True t \<and> stacks_kept (save_undo s) t)
         \<or> delete_selection s = IndexError (save_undo s)"
  using assms
  by (simp add: delete_selection_def selection_deleted_def stacks_kept_def Let_def
           split: option.splits)

lemma handle_key_edit_section:
  assumes "key_name k \<notin> set (map Some (shift_names @ movement_names))"
  shows "handle_key k s =
     (if key_str k = [CHR 0x15] \<or> key_str k = [CHR 0x1A] then Returns True (undo s)
      else if key_str k = [CHR 0x12] \<or> key_str k = [CHR 0x19] then Returns True (redo s)
      else if key_name k = Some ''KEY_BACKSPACE'' then
        and_then (delete_selection s)
          (\<lambda>deleted s1. if deleted then Returns True s1
                          else consumed (backspace (save_undo s1)))
      else if key_name k = Some ''KEY_DELETE'' then
        and_then (delete_selection s)
          (\<lambda>deleted s1. if deleted then Returns True s1
                          else consumed (delete (save_undo s1)))
      else if key_name k = Some ''KEY_ENTER'' then
        and_then (delete_selection (save_undo s)) (\<lambda>deleted s1. consumed (enter s1))
      else if key_name k = Some ''KEY_TAB'' \<or> key_str k = [CHR 0x09] then
        and_then (delete_selection (save_undo s))
          (\<lambda>deleted s1. consumed (insert_text ''    '' s1))
      else if key_str k \<noteq> [] \<and> \<not> is_sequence k then
        and_then (delete_selection (save_undo s))
          (\<lambda>deleted s1. consumed (insert_char (key_str k) s1))
      else Returns False s)"
  using assms by (simp add: handle_key_def movement_names_def Let_def)

lemma saved_kept: "saved s0 s \<Longrightarrow> stacks_kept s t \<Longrightarrow> saved s0 t"
  by (simp add: saved_def stacks_kept_def)

lemma saved_and_then:
  "saved s0 (state_of r) \<Longrightarrow> (\<And>v s'. stacks_kept s' (state_of (f v s'))) \<Longrightarrow>
   saved s0 (state_of (and_then r f))"
  by (cases r) (auto intro: saved_kept)

lemma saved_delete_selection_active:
  assumes "sel_range s \<noteq> None" "0 < max_undo s"
  shows "saved s (state_of (delete_selection s)) \<and> delete_selection s \<noteq> Returns False (state_of (delete_selection s))"
proof -
  from assms(1) obtain sr sc er ec where r: "sel_range s = Some ((sr, sc), (er, ec))"
    by (cases "sel_range s") auto
  from delete_selection_active [OF r] saved_save_undo [OF assms(2)] show ?thesis
    by (auto intro: saved_kept)
qed

lemma saved_delete_selection:
  assumes "saved s0 s" "snap s = snap s0" "0 < max_undo s"
  shows "saved s0 (state_of (delete_selection s))"
proof (cases "sel_range s = None")
  case True
  then show ?thesis using assms(1) by (simp add: delete_selection_inactive)
next
  case False
  from saved_delete_selection_active [OF False assms(3)] assms(2) show ?thesis
    by (simp add: saved_def)
qed

lemma saved_after_selection:
  assumes "0 < max_undo s" "\<And>s'. stacks_kept s' (state_of (m s'))"
  shows "saved s (state_of (and_then (delete_selection s)
           (\<lambda>deleted s1. if deleted then Returns True s1 else consumed (m (save_undo s1)))))"
proof (cases "sel_range s = None")
  case True
  have "saved s (state_of (m (save_undo s)))"
    by (rule saved_kept [OF saved_save_undo [OF assms(1)] assms(2)])
  with True show ?thesis by (simp add: delete_selection_inactive occ_consumed)
next
  case False
  from saved_delete_selection_active [OF False assms(1)] show ?thesis
    by (cases "delete_selection s") auto
qed

lemma saved_selection_then:
  assumes "0 < max_undo s" "\<And>s'. stacks_kept s' (state_of (m s'))"
  shows "saved s (state_of (and_then (delete_selection (save_undo s))
           (\<lambda>deleted s1. consumed (m s1))))"
proof (rule saved_and_then)
  show "saved s (state_of (delete_selection (save_undo s)))"
    by (rule saved_delete_selection [OF saved_save_undo [OF assms(1)] snap_save_undo])
       (simp add: max_undo_save_undo assms(1))
next
  fix v s' show "stacks_kept s' (state_of (consumed (m s')))"
    by (simp add: occ_consumed assms(2))
qed

lemma saved_handle_key:
  assumes "edit_key k" "0 < max_undo s"
  shows "saved s (state_of (handle_key k s))"
proof -
  from assms(1) have n: "key_name k \<notin> set (map Some (shift_names @ movement_names))"
    and u: "key_str k \<noteq> [CHR 0x15]" "key_str k \<noteq> [CHR 0x1A]" "key_str k \<noteq> [CHR 0x12]"
           "key_str k \<noteq> [CHR 0x19]"
    and e: "key_name k = Some ''KEY_BACKSPACE'' \<or> key_name k = Some ''KEY_DELETE'' \<or>
            key_name k = Some ''KEY_ENTER'' \<or> key_name k = Some ''KEY_TAB'' \<or>
            key_str k = [CHR 0x09] \<or> (key_str k \<noteq> [] \<and> \<not> is_sequence k)"
    by (auto simp: edit_key_def)
  show ?thesis
    unfolding handle_key_edit_section [OF n]
    using u e
    by (auto simp: saved_after_selection [OF assms(2)] saved_selection_then [OF assms(2)]
          kept_backspace kept_delete kept_enter kept_insert_text kept_insert_char)
qed

lemma undo_restores:
  assumes "saved s t"
  shows "lines (undo t) = lines s \<and> cursor (undo t) = cursor s \<and>
         lines (redo (undo t)) = lines t \<and> cursor (redo (undo t)) = cursor t"
  using assms
  by (auto simp: saved_def snap_def undo_def redo_def cursor_def split: prod.splits)

text \<open>
  C1: for every editor state whose depth limit is positive (it is 200 in every reachable
  state) and every editing key (character insertion, backspace, delete, enter, tab, each
  with or without an active selection), undo right after the key restores the lines, the
  text and the cursor of the state before the key, and redo right after that undo restores
  those of the state after the key. The same holds for \<open>delete_selection\<close> called on an
  active selection. The state after the key is the one the key leaves, also when it raises.
\<close>

theorem C1_undo_redo_roundtrip:
  assumes "edit_key k" and "0 < max_undo s"
  shows "lines (undo (state_of (handle_key k s))) = lines s \<and>
         get_text (undo (state_of (handle_key k s))) = get_text s \<and>
         cursor (undo (state_of (handle_key k s))) = cursor s \<and>
         lines (redo (undo (state_of (handle_key k s)))) = lines (state_of (handle_key k s)) \<and>
         get_text (redo (undo (state_of (handle_key k s)))) = get_text (state_of (handle_key k s)) \<and>
         cursor (redo (undo (state_of (handle_key k s)))) = cursor (state_of (handle_key k s)) \<and>
         (sel_range s \<noteq> None \<longrightarrow>
            get_text (undo (state_of (delete_selection s))) = get_text s \<and>
            get_text (redo (undo (state_of (delete_selection s)))) =
              get_text (state_of (delete_selection s)))"
  using undo_restores [OF saved_handle_key [OF assms]]
        undo_restores [of s "state_of (delete_selection s)"]
        saved_delete_selection_active [OF _ assms(2)]
  by (simp add: get_text_def)

theorem C1_undo_redo_roundtrip_witness:
  "edit_key (typed ''a'') \<and> 0 < max_undo two_sum_selected \<and>
   sel_range two_sum_selected \<noteq> None \<and>
   get_text two_sum_selected = ''two'' @ [CHR 0x0A] @ ''sum'' \<and>
   get_text (state_of (handle_key (typed ''a'') two_sum_selected)) = ''awo'' @ [CHR 0x0A] @ ''sum'' \<and>
   get_text (undo (state_of (handle_key (typed ''a'') two_sum_selected)))
     = ''two'' @ [CHR 0x0A] @ ''sum'' \<and>
   get_text (redo (undo (state_of (handle_key (typed ''a'') two_sum_selected))))
     = ''awo'' @ [CHR 0x0A] @ ''sum'' \<and>
   get_text (undo (state_of (delete_selection two_sum_selected))) = ''two'' @ [CHR 0x0A] @ ''sum''"
proof -
  have k: "edit_key (typed ''a'')"
    by (simp add: edit_key_def typed_def shift_names_def movement_names_def)
  have m: "0 < max_undo two_sum_selected"
    by code_simp
  have r: "sel_range two_sum_selected \<noteq> None"
    by code_simp
  have t: "get_text two_sum_selected = ''two'' @ [CHR 0x0A] @ ''sum''"
    "get_text (state_of (handle_key (typed ''a'') two_sum_selected)) = ''awo'' @ [CHR 0x0A] @ ''sum''"
    by code_simp+
  from C1_undo_redo_roundtrip [OF k m] show ?thesis
    using k m r t by simp
qed

section \<open>The undo and redo stacks stay bounded\<close>

lemma sb_init: "stacks_bounded (init lang)"
  by (simp add: stacks_bounded_def init_def)

lemma sb_save_undo: "stacks_bounded s \<Longrightarrow> stacks_bounded (save_undo s)"
  by (auto simp: stacks_bounded_def save_undo_def Let_def)

lemma sb_undo: "stacks_bounded s \<Longrightarrow> stacks_bounded (undo s)"
  by (cases "undo_stack s" rule: rev_cases) (auto simp: stacks_bounded_def undo_def split: prod.splits)

lemma sb_redo: "stacks_bounded s \<Longrightarrow> stacks_bounded (redo s)"
  by (cases "redo_stack s" rule: rev_cases) (auto simp: stacks_bounded_def redo_def split: prod.splits)

lemma sb_kept: "stacks_bounded s \<Longrightarrow> stacks_kept s t \<Longrightarrow> stacks_bounded t"
  by (simp add: stacks_bounded_def stacks_kept_def)

lemma sb_occ: "stacks_bounded s \<Longrightarrow> only_cursor_changed s t \<Longrightarrow> stacks_bounded t"
  by (simp add: stacks_bounded_def only_cursor_changed_def)

lemma sb_and_then:
  "stacks_bounded (state_of r) \<Longrightarrow>
   (\<And>v s'. stacks_bounded s' \<Longrightarrow> stacks_bounded (state_of (f v s'))) \<Longrightarrow>
   stacks_bounded (state_of (and_then r f))"
  by (cases r) auto

lemma sb_delete_selection:
  assumes "stacks_bounded s"
  shows "stacks_bounded (state_of (delete_selection s))"
proof (cases "sel_range s")
  case None
  then show ?thesis using assms by (simp add: delete_selection_inactive)
next
  case (Some r)
  then obtain sr sc er ec where "sel_range s = Some ((sr, sc), (er, ec))"
    by (cases r) auto
  from delete_selection_active [OF this] sb_save_undo [OF assms] show ?thesis
    by (auto intro: sb_kept)
qed

lemma sb_handle_key:
  assumes "stacks_bounded s"
  shows "stacks_bounded (state_of (handle_key k s))"
proof (cases "key_name k \<in> set (map Some (shift_names @ movement_names))")
  case True
  then have "only_cursor_changed s (state_of (handle_key k s))"
    using occ_handle_shift [of k s] occ_handle_plain [of k s] by auto
  then show ?thesis by (rule sb_occ [OF assms])
next
  case False
  note ops = sb_kept [OF _ kept_backspace] sb_kept [OF _ kept_delete] sb_kept [OF _ kept_enter]
             sb_kept [OF _ kept_insert_text] sb_kept [OF _ kept_insert_char]
  show ?thesis
    unfolding handle_key_edit_section [OF False]
    using assms
    by (auto intro!: sb_and_then sb_delete_selection sb_save_undo sb_undo sb_redo ops
             simp: occ_consumed)
qed

lemma sb_set_text: "stacks_bounded s \<Longrightarrow> stacks_bounded (set_text t s)"
  by (simp add: stacks_bounded_def set_text_def)

lemma sb_set_language: "stacks_bounded s \<Longrightarrow> stacks_bounded (set_language l s)"
  by (simp add: stacks_bounded_def set_language_def)

lemma sb_render: "stacks_bounded s \<Longrightarrow> stacks_bounded (render lexf x y w h s)"
  by (simp add: stacks_bounded_def render_def render_prepare_def rehighlight_def Let_def)

lemma sb_apply_op: "stacks_bounded s \<Longrightarrow> stacks_bounded (apply_op lexf a s)"
  by (cases a) (simp_all add: sb_handle_key sb_set_text sb_set_language sb_render)

lemma sb_run_ops: "stacks_bounded s \<Longrightarrow> stacks_bounded (run_ops lexf ops s)"
  by (induction ops arbitrary: s) (simp_all add: sb_apply_op)

lemma save_undo_full:
  "max_undo s = 200 \<Longrightarrow> length (undo_stack s) = 200 \<Longrightarrow>
   undo_stack (save_undo s) = tl (undo_stack s) @ [snap s]"
  by (cases "undo_stack s") (simp_all add: save_undo_def snap_def Let_def)

lemma save_undo_room:
  "max_undo s = 200 \<Longrightarrow> length (undo_stack s) < 200 \<Longrightarrow>
   undo_stack (save_undo s) = undo_stack s @ [snap s]"
  by (simp add: save_undo_def snap_def Let_def)

lemma typed_step:
  assumes "sel_anchor s = None" "max_undo s = 200" "length (undo_stack s) \<le> 200"
  shows "sel_anchor (state_of (handle_key (typed ''a'') s)) = None \<and>
         max_undo (state_of (handle_key (typed ''a'') s)) = 200 \<and>
         length (undo_stack (state_of (handle_key (typed ''a'') s))) =
           min 200 (Suc (length (undo_stack s)))"
proof -
  have r: "sel_range (save_undo s) = None"
    using assms(1) by (simp add: sel_range_def save_undo_def Let_def)
  have h: "handle_key (typed ''a'') s = consumed (insert_char ''a'' (save_undo s))"
    by (simp add: handle_key_def typed_def shift_names_def delete_selection_inactive [OF r])
  show ?thesis
    unfolding h occ_consumed using assms
    by (auto simp: insert_char_def edited_def save_undo_def Let_def split: option.splits)
qed

lemma typing_depth:
  "sel_anchor s = None \<Longrightarrow> max_undo s = 200 \<Longrightarrow> length (undo_stack s) \<le> 200 \<Longrightarrow>
   length (undo_stack (run_ops lexf (typing n) s)) = min 200 (length (undo_stack s) + n)"
proof (induction n arbitrary: s)
  case 0
  then show ?case by (simp add: typing_def)
next
  case (Suc n)
  from typed_step [OF Suc.prems] Suc.IH [of "state_of (handle_key (typed ''a'') s)"]
  show ?case by (simp add: typing_def)
qed

lemma typing_200: "length (undo_stack (run_ops lexf (typing 200) (init lang))) = 200"
  by (simp add: typing_depth init_def)

text \<open>
  C7: after every sequence of editor operations (any keys, among them edits, undo and redo
  in any order, \<open>set_text\<close>, \<open>set_language\<close>, \<open>render\<close>) started on a new editor, the depth
  limit is 200 and neither the undo stack nor the redo stack holds more than 200 entries;
  a snapshot pushed onto a full undo stack discards the oldest entry.
\<close>

theorem C7_stacks_bounded:
  "max_undo (run_ops lexf ops (init lang)) = 200 \<and>
   length (undo_stack (run_ops lexf ops (init lang))) \<le> 200 \<and>
   length (redo_stack (run_ops lexf ops (init lang))) \<le> 200 \<and>
   (length (undo_stack (run_ops lexf ops (init lang))) = 200 \<longrightarrow>
      undo_stack (save_undo (run_ops lexf ops (init lang))) =
        tl (undo_stack (run_ops lexf ops (init lang))) @ [snap (run_ops lexf ops (init lang))])"
  using sb_run_ops [OF sb_init, of lexf ops lang]
  by (auto simp: stacks_bounded_def save_undo_full)

theorem C7_stacks_bounded_witness:
  "length (undo_stack (run_ops (\<lambda>lang text. []) (typing 200) (init ''python''))) = 200 \<and>
   undo_stack (save_undo (run_ops (\<lambda>lang text. []) (typing 200) (init ''python''))) =
     tl (undo_stack (run_ops (\<lambda>lang text. []) (typing 200) (init ''python'')))
       @ [snap (run_ops (\<lambda>lang text. []) (typing 200) (init ''python''))]"
  using C7_stacks_bounded [of "\<lambda>lang text. []" "typing 200" "''python''"]
        typing_200 [of "\<lambda>lang text. []" "''python''"]
  by simp

section \<open>The buffer invariant and stale selection anchors\<close>

text \<open>
  C2: the buffer invariant (lines never empty, the cursor row a row of the buffer, the
  cursor column at most the length of its line) is claimed after every sequence of
  operations. It fails on the code: \<open>_delete_selection\<close> returns without clearing the anchor
  when the anchor equals the cursor, the edit that follows leaves the anchor behind, and a
  plain Right then moves the cursor onto it: to column 3 of the line \<open>ab\<close>, and in the second
  sequence to row 1 of a one-line buffer, where the next character raises IndexError.
\<close>

theorem C2_stale_anchor_breaks_invariant:
  "buffer_inv (run_ops plain_lexer (butlast stale_anchor_keys) (init ''python'')) \<and>
   lines (run_ops plain_lexer stale_anchor_keys (init ''python'')) = [''ab''] \<and>
   cursor (run_ops plain_lexer stale_anchor_keys (init ''python'')) = (0, 3) \<and>
   \<not> buffer_inv (run_ops plain_lexer stale_anchor_keys (init ''python'')) \<and>
   lines (run_ops plain_lexer stale_row_keys (init ''python'')) = [''ab''] \<and>
   cursor (run_ops plain_lexer stale_row_keys (init ''python'')) = (1, 0) \<and>
   \<not> buffer_inv (run_ops plain_lexer stale_row_keys (init ''python'')) \<and>
   raised (handle_key (typed ''x'') (run_ops plain_lexer stale_row_keys (init ''python'')))"
  by code_simp

section \<open>Editing keys on an active selection\<close>


lemma save_undo_fields:
  "lines (save_undo s) = lines s" "cursor_row (save_undo s) = cursor_row s"
  "cursor_col (save_undo s) = cursor_col s" "sel_anchor (save_undo s) = sel_anchor s"
  by (simp_all add: save_undo_def Let_def)





section \<open>The viewport after a render\<close>

lemma rehighlight_frame:
  "lines (rehighlight lexf s) = lines s \<and> cursor_row (rehighlight lexf s) = cursor_row s \<and>
   cursor_col (rehighlight lexf s) = cursor_col s \<and> scroll_row (rehighlight lexf s) = scroll_row s \<and>
   scroll_col (rehighlight lexf s) = scroll_col s"
  by (simp add: rehighlight_def Let_def)

text \<open>
  C4, as the specification states it: for every viewport width and height of at least 1,
  after a render \<open>scroll_col \<le> cursor_col < scroll_col + width\<close>. \<open>render\<close> scrolls within
  the code columns, \<open>width - gutter_width\<close>, and the gutter takes at least 4 columns: on a
  new editor rendered 4 columns wide the code width is 0 and the column offset becomes 1,
  past the cursor at column 0.
\<close>

theorem C4_narrow_width_counterexample:
  "(1::int) \<le> 4 \<and> (1::int) \<le> 1 \<and>
   cursor_col (render plain_lexer 0 0 4 1 (init ''python'')) = 0 \<and>
   scroll_col (render plain_lexer 0 0 4 1 (init ''python'')) = 1 \<and>
   \<not> (scroll_col (render plain_lexer 0 0 4 1 (init ''python''))
         \<le> cursor_col (render plain_lexer 0 0 4 1 (init ''python'')))"
  by code_simp

lemma scroll_adjust:
  fixes c sc h :: int
  assumes "1 \<le> h"
  shows "(if c < sc then c else if c \<ge> sc + h then c - h + 1 else sc) \<le> c \<and>
         c < (if c < sc then c else if c \<ge> sc + h then c - h + 1 else sc) + h \<and>
         (0 \<le> c \<and> 0 \<le> sc \<longrightarrow> 0 \<le> (if c < sc then c else if c \<ge> sc + h then c - h + 1 else sc))"
  using assms by auto

lemma render_fields:
  "cursor_row (render lexf x y width height s) = cursor_row s"
  "cursor_col (render lexf x y width height s) = cursor_col s"
  "gutter_width (render lexf x y width height s) = max 4 (int (digits (length (lines s))) + 2)"
  "scroll_row (render lexf x y width height s) =
     (if cursor_row s < scroll_row s then cursor_row s
      else if cursor_row s \<ge> scroll_row s + height then cursor_row s - height + 1
      else scroll_row s)"
  "scroll_col (render lexf x y width height s) =
     (if cursor_col s < scroll_col s then cursor_col s
      else if cursor_col s \<ge> scroll_col s + (width - max 4 (int (digits (length (lines s))) + 2))
        then cursor_col s - (width - max 4 (int (digits (length (lines s))) + 2)) + 1
      else scroll_col s)"
  by (simp_all add: render_def render_prepare_def Let_def rehighlight_frame)

text \<open>
  C4, amended: for every buffer state, every cursor position, every height of at least 1
  and every width greater than the gutter width \<open>max(4, digits(line count) + 2)\<close>, after a
  render \<open>scroll_row \<le> cursor_row < scroll_row + height\<close> and
  \<open>scroll_col \<le> cursor_col < scroll_col + (width - gutter_width)\<close>, hence also
  \<open>cursor_col < scroll_col + width\<close>; the cursor is not moved; a scroll offset is
  non-negative after the render when it and the cursor coordinate were non-negative before.
\<close>

theorem C4_viewport_after_render:
  assumes "1 \<le> height" and "max 4 (int (digits (length (lines s))) + 2) < width"
  shows "cursor_row (render lexf x y width height s) = cursor_row s \<and>
         cursor_col (render lexf x y width height s) = cursor_col s \<and>
         gutter_width (render lexf x y width height s) = max 4 (int (digits (length (lines s))) + 2) \<and>
         scroll_row (render lexf x y width height s) \<le> cursor_row s \<and>
         cursor_row s < scroll_row (render lexf x y width height s) + height \<and>
         scroll_col (render lexf x y width height s) \<le> cursor_col s \<and>
         cursor_col s < scroll_col (render lexf x y width height s)
                          + (width - gutter_width (render lexf x y width height s)) \<and>
         cursor_col s < scroll_col (render lexf x y width height s) + width \<and>
         (0 \<le> cursor_row s \<and> 0 \<le> scroll_row s \<longrightarrow>
            0 \<le> scroll_row (render lexf x y width height s)) \<and>
         (0 \<le> cursor_col s \<and> 0 \<le> scroll_col s \<longrightarrow>
            0 \<le> scroll_col (render lexf x y width height s))"
proof -
  define gw where "gw = max 4 (int (digits (length (lines s))) + 2)"
  have cw: "1 \<le> width - gw" and gw4: "0 < gw"
    using assms(2) unfolding gw_def by linarith+
  note r = scroll_adjust [OF assms(1), of "cursor_row s" "scroll_row s"]
  note c = scroll_adjust [OF cw, of "cursor_col s" "scroll_col s"]
  show ?thesis
    unfolding render_fields gw_def [symmetric]
    using r c gw4 by auto
qed

theorem C4_viewport_after_render_witness:
  "(1::int) \<le> 3 \<and> max 4 (int (digits (length (lines two_sum))) + 2) < (20::int) \<and>
   (0 \<le> cursor_row two_sum \<and> 0 \<le> scroll_row two_sum) \<and>
   (0 \<le> cursor_col two_sum \<and> 0 \<le> scroll_col two_sum) \<and>
   scroll_row (render plain_lexer 0 0 20 3 two_sum) \<le> cursor_row two_sum \<and>
   cursor_row two_sum < scroll_row (render plain_lexer 0 0 20 3 two_sum) + 3 \<and>
   scroll_col (render plain_lexer 0 0 20 3 two_sum) \<le> cursor_col two_sum \<and>
   cursor_col two_sum < scroll_col (render plain_lexer 0 0 20 3 two_sum) + (20 - 4) \<and>
   0 \<le> scroll_row (render plain_lexer 0 0 20 3 two_sum) \<and>
   0 \<le> scroll_col (render plain_lexer 0 0 20 3 two_sum)"
proof -
  have h: "(1::int) \<le> 3" "max 4 (int (digits (length (lines two_sum))) + 2) < (20::int)"
    by code_simp+
  have g: "max 4 (int (digits (length (lines two_sum))) + 2) = 4"
    by code_simp
  have p: "0 \<le> cursor_row two_sum \<and> 0 \<le> scroll_row two_sum"
    "0 \<le> cursor_col two_sum \<and> 0 \<le> scroll_col two_sum"
    by code_simp+
  from C4_viewport_after_render [OF h, of plain_lexer 0 0] show ?thesis
    using h g p by simp
qed

section \<open>A background task that completes after its screen was popped\<close>

lemma visible_own_only:
  assumes "own_only sid a b" and "sid \<notin> set (screen_stack a)"
  shows "visible b = visible a"
proof (cases "screen_stack a = []")
  case True
  with assms show ?thesis
    by (simp add: own_only_def visible_def current_screen_def)
next
  case False
  then have "last (screen_stack a) \<in> set (screen_stack a)" by simp
  with assms(2) have "last (screen_stack a) \<noteq> sid" by auto
  with assms(1) False show ?thesis
    by (simp add: own_only_def others_kept_def visible_def current_screen_def)
qed

lemma own_only_fetch_problems_start: "own_only sid a (fetch_problems_start sid a)"
  by (simp add: own_only_def others_kept_def fetch_problems_start_def proceed_def
      create_task_def finish_def invalidate_def assign_def)

lemma own_only_fetch_problems_done: "own_only sid a (fetch_problems_done sid (Returned p) a)"
  by (cases p)
     (simp add: own_only_def others_kept_def fetch_problems_done_def finish_def invalidate_def
      assign_def Let_def)

lemma own_only_fetch_detail_done: "own_only sid a (fetch_detail_done sid (Returned v) a)"
  by (simp add: own_only_def others_kept_def fetch_detail_done_def finish_def invalidate_def
      assign_def Let_def)

lemma own_only_try_browser: "own_only sid a (try_browser_resumed sid ev a)"
  by (cases ev)
     (simp_all add: own_only_def others_kept_def try_browser_resumed_def set_status_def
      show_browser_step_def proceed_def create_task_def finish_def invalidate_def assign_def)

lemma own_only_validate_manual_start: "own_only sid a (validate_manual_start sid a)"
  by (simp add: own_only_def others_kept_def validate_manual_start_def set_status_def
      proceed_def create_task_def finish_def invalidate_def assign_def)

lemma own_only_validate_manual_done: "own_only sid a (validate_manual_done sid r a)"
  by (cases r)
     (simp_all add: own_only_def others_kept_def validate_manual_done_def manual_rejected_def
      show_manual_session_step_def set_status_def create_task_def finish_def invalidate_def
      assign_def Let_def)

lemma own_only_login_sleep_done: "own_only sid a (login_sleep_done sid a)"
  by (simp add: own_only_def others_kept_def login_sleep_done_def proceed_def create_task_def
      finish_def assign_def)

lemma own_only_run_async_done: "own_only sid a (run_async_done (\<lambda>a. a) sid a)"
  by (simp add: own_only_def others_kept_def run_async_done_def invalidate_def assign_def)

lemma notified_notify: "notified msg sid a (invalidate sid (notify msg a))"
  by (auto simp: notified_def others_kept_def notify_def current_screen_def invalidate_def
      assign_def Let_def)

lemma notified_after:
  "screen_stack a0 = screen_stack a \<Longrightarrow> running a0 = running a \<Longrightarrow>
   others_kept {sid} a a0 \<Longrightarrow> notified msg sid a (invalidate sid (notify msg a0))"
  by (auto simp: notified_def others_kept_def notify_def current_screen_def invalidate_def
      assign_def Let_def)

lemma notified_fetch_problems:
  "notified (''Error: '' @ e) sid a (fetch_problems_done sid (Raised e) a)"
  unfolding fetch_problems_done_def Let_def reply.case
  by (rule notified_after) (simp_all add: others_kept_def finish_def assign_def)

lemma notified_fetch_detail:
  "notified (''Error: '' @ e) sid a (fetch_detail_done sid (Raised e) a)"
  unfolding fetch_detail_done_def Let_def reply.case
  by (rule notified_after) (simp_all add: others_kept_def finish_def assign_def)

lemma notified_test: "notified (''Test error: '' @ e) sid a (test_done sid (Raised e) new a)"
  unfolding test_done_def Let_def reply.case
  by (rule notified_after) (simp_all add: others_kept_def finish_def)

lemma notified_submit:
  "notified (''Submit error: '' @ e) sid a (submit_done sid (Raised e) new a)"
  unfolding submit_done_def Let_def reply.case
  by (rule notified_after) (simp_all add: others_kept_def finish_def)

lemma expired_after:
  "screen_stack a0 = screen_stack a \<Longrightarrow> running a0 = running a \<Longrightarrow>
   others_kept {sid} a a0 \<Longrightarrow>
   notified ''Session expired. Please log in again.'' sid a (show_login_on_auth_error a0) \<and>
   Relogin \<in> set (tasks (show_login_on_auth_error a0))"
  by (auto simp: notified_def others_kept_def show_login_on_auth_error_def create_task_def
      notify_def current_screen_def invalidate_def assign_def Let_def)

lemma expired_fetch_problems:
  "notified ''Session expired. Please log in again.'' sid a
     (fetch_problems_done sid (AuthenticationError m) a) \<and>
   Relogin \<in> set (tasks (fetch_problems_done sid (AuthenticationError m) a))"
  unfolding fetch_problems_done_def Let_def reply.case
  by (rule expired_after) (simp_all add: others_kept_def finish_def assign_def)

lemma expired_fetch_detail:
  "notified ''Session expired. Please log in again.'' sid a
     (fetch_detail_done sid (AuthenticationError m) a) \<and>
   Relogin \<in> set (tasks (fetch_detail_done sid (AuthenticationError m) a))"
  unfolding fetch_detail_done_def Let_def reply.case
  by (rule expired_after) (simp_all add: others_kept_def finish_def assign_def)

lemma expired_test:
  "notified ''Session expired. Please log in again.'' sid a
     (test_done sid (AuthenticationError m) new a) \<and>
   Relogin \<in> set (tasks (test_done sid (AuthenticationError m) new a))"
  unfolding test_done_def Let_def reply.case
  by (rule expired_after) (simp_all add: others_kept_def finish_def)

lemma expired_submit:
  "notified ''Session expired. Please log in again.'' sid a
     (submit_done sid (AuthenticationError m) new a) \<and>
   Relogin \<in> set (tasks (submit_done sid (AuthenticationError m) new a))"
  unfolding submit_done_def Let_def reply.case
  by (rule expired_after) (simp_all add: others_kept_def finish_def)

lemma pushed_push_screen:
  "k \<in> {TestResultScreen, SubmissionResultScreen, LoginScreen, ProblemListScreen} \<Longrightarrow>
   screen_stack a0 = st \<Longrightarrow> (\<forall>t. t \<noteq> new \<longrightarrow> screens a0 t = screens a t) \<Longrightarrow>
   screen_stack (push_screen new (construct new k a0)) = st @ [new] \<and>
   current_screen (push_screen new (construct new k a0)) = Some new \<and>
   kind (screens (push_screen new (construct new k a0)) new) = k \<and>
   screen_dirty (screens (push_screen new (construct new k a0)) new) \<and>
   others_kept {new} a (push_screen new (construct new k a0))"
  by (auto simp: others_kept_def push_screen_def construct_def on_enter_def new_screen_def
      show_method_step_def create_task_def current_screen_def invalidate_def assign_def Let_def)

lemma pushed_test: "pushed TestResultScreen new a (test_done sid (Returned v) new a)"
  unfolding test_done_def Let_def reply.case pushed_def
  using pushed_push_screen [of TestResultScreen "finish (RunTest sid) a" "screen_stack a" new a]
  by (simp add: finish_def)

lemma pushed_submit: "pushed SubmissionResultScreen new a (submit_done sid (Returned v) new a)"
  unfolding submit_done_def Let_def reply.case pushed_def
  using pushed_push_screen [of SubmissionResultScreen "finish (RunSubmit sid) a" "screen_stack a" new a]
  by (simp add: finish_def)

lemma pop_all_stack: "screen_stack (pop_all a) = [] \<and> screens (pop_all a) = screens a"
proof -
  have "\<And>b. foldr on_exit xs b = b" for xs
    by (induction xs) (simp_all add: on_exit_def)
  then show ?thesis by (simp add: pop_all_def)
qed

lemma relogin_effect:
  "screen_stack (relogin new c) = [new] \<and> current_screen (relogin new c) = Some new \<and>
   kind (screens (relogin new c) new) = LoginScreen \<and> others_kept {new} c (relogin new c)"
  unfolding relogin_def show_login_def
  using pushed_push_screen [of LoginScreen "pop_all (finish Relogin c)" "[]" new c]
  by (simp add: pop_all_stack finish_def)

lemma goto_problem_list_effect:
  "screen_stack (goto_problem_list new c) = butlast (screen_stack c) @ [new] \<and>
   current_screen (goto_problem_list new c) = Some new \<and>
   kind (screens (goto_problem_list new c) new) = ProblemListScreen \<and>
   others_kept {new} c (goto_problem_list new c)"
  by (simp add: goto_problem_list_def replace_screen_def push_screen_def construct_def
      on_enter_def on_exit_def new_screen_def create_task_def current_screen_def
      others_kept_def invalidate_def assign_def Let_def)

lemma check_session_list:
  assumes "r \<noteq> Returned []"
  shows "screen_stack (check_session_done r new c) = butlast (screen_stack c) @ [new] \<and>
         current_screen (check_session_done r new c) = Some new \<and>
         kind (screens (check_session_done r new c) new) = ProblemListScreen \<and>
         others_kept {new} c (check_session_done r new c)"
proof -
  have g: "screen_stack (goto_problem_list new a0) = butlast (screen_stack c) @ [new] \<and>
      current_screen (goto_problem_list new a0) = Some new \<and>
      kind (screens (goto_problem_list new a0) new) = ProblemListScreen \<and>
      others_kept {new} c (goto_problem_list new a0)"
    if "screen_stack a0 = screen_stack c" "screens a0 = screens c" for a0
    using goto_problem_list_effect [of new a0] that by (simp add: others_kept_def)
  from assms show ?thesis
    by (cases r) (simp_all add: check_session_done_def Let_def g finish_def)
qed

lemma check_session_login:
  "pushed LoginScreen new c (check_session_done (Returned []) new c)"
  unfolding check_session_done_def Let_def reply.case pushed_def show_login_def
  using pushed_push_screen [of LoginScreen "finish CheckSession c" "screen_stack c" new c]
  by (simp add: finish_def)


lemma quiet_own_only:
  "sid \<notin> set (screen_stack a) \<Longrightarrow> own_only sid a b \<Longrightarrow> quiet sid a b"
  by (simp add: quiet_def visible_own_only)

lemma fetch_returned_fields:
  "screen_dirty (screens (fetch_problems_done sid (Returned (n, tot)) a) sid) \<and>
   \<not> loading (screens (fetch_problems_done sid (Returned (n, tot)) a) sid) \<and>
   problems (screens (fetch_problems_done sid (Returned (n, tot)) a) sid) = n \<and>
   list_cursor (screens (fetch_problems_done sid (Returned (n, tot)) a) sid) = 0 \<and>
   screen_dirty (screens (fetch_detail_done sid (Returned v) a) sid) \<and>
   \<not> loading (screens (fetch_detail_done sid (Returned v) a) sid) \<and>
   detail (screens (fetch_detail_done sid (Returned v) a) sid)"
  by (simp add: fetch_problems_done_def fetch_detail_done_def finish_def invalidate_def
      assign_def Let_def)

text \<open>
  C9, as the specification states it: a background task whose screen has been popped
  before it completes checks whether its screen is still the active screen and does not
  mutate visible state. No task of the screens makes such a check. In \<open>test_pending\<close>
  the detail screen 1 starts a test run and is popped; with the list screen 0 active and
  rendered, the test run that returns pushes the result screen 2 on top of the list screen,
  and the test run that raises replaces the notification and marks the list screen dirty.
\<close>

theorem C9_stale_task_counterexample:
  "screen_stack test_pending = [0, 1] \<and> tasks test_pending = [RunTest 1] \<and>
   screen_stack detail_popped = [0] \<and> 1 \<notin> set (screen_stack detail_popped) \<and>
   tasks detail_popped = [RunTest 1] \<and>
   current_screen detail_popped = Some 0 \<and> \<not> screen_dirty (screens detail_popped 0) \<and>
   notification detail_popped = ''Running tests...'' \<and>
   screen_stack (test_done 1 (Returned ()) 2 detail_popped) = [0, 2] \<and>
   current_screen (test_done 1 (Returned ()) 2 detail_popped) = Some 2 \<and>
   visible (test_done 1 (Returned ()) 2 detail_popped) \<noteq> visible detail_popped \<and>
   notification (test_done 1 (Raised ''timed out'') 2 detail_popped) = ''Test error: timed out'' \<and>
   screen_dirty (screens (test_done 1 (Raised ''timed out'') 2 detail_popped) 0) \<and>
   visible (test_done 1 (Raised ''timed out'') 2 detail_popped) \<noteq> visible detail_popped"
  by code_simp

text \<open>
  C9, amended: for every background task launched by a screen (the list fetch, the detail
  fetch, the test run, the submit run and the two login tasks, and a coroutine under
  \<open>run_async\<close>), if that screen has been popped from the screen stack before the task is
  resumed, the task makes no active-screen check, and it leaves what is on the terminal
  as it is only in these cases: a fetch starts or returns, a login task reports progress,
  is accepted, is rejected or ends its sleep, and the \<open>finally\<close> block of \<open>run_async\<close> runs;
  then the stack, the notification and every other screen object are unchanged and the
  task has assigned the fields of the popped screen. In the other cases it mutates visible
  state: a fetch or a run that raises sets the notification to its error message and marks
  the active screen dirty; a test or submit run that returns pushes its result screen,
  which becomes the active screen; an authentication error sets the notification
  \<open>Session expired. Please log in again.\<close>, marks the active screen dirty and creates the
  task that empties the stack and pushes a new login screen; an accepted login, resumed in
  \<open>_check_session\<close>, puts a new problem list in the place of the active screen, or pushes
  a new login screen when the session check returns no user.
\<close>

theorem C9_stale_task_completion:
  assumes stale: "sid \<notin> set (screen_stack a)"
  shows "quiet sid a (fetch_problems_start sid a) \<and>
         quiet sid a (fetch_problems_done sid (Returned (n, tot)) a) \<and>
         screen_dirty (screens (fetch_problems_done sid (Returned (n, tot)) a) sid) \<and>
         problems (screens (fetch_problems_done sid (Returned (n, tot)) a) sid) = n \<and>
         quiet sid a (fetch_detail_done sid (Returned v) a) \<and>
         screen_dirty (screens (fetch_detail_done sid (Returned v) a) sid) \<and>
         detail (screens (fetch_detail_done sid (Returned v) a) sid) \<and>
         quiet sid a (try_browser_resumed sid ev a) \<and>
         quiet sid a (validate_manual_start sid a) \<and>
         quiet sid a (validate_manual_done sid r a) \<and>
         quiet sid a (login_sleep_done sid a) \<and>
         quiet sid a (run_async_done (\<lambda>a. a) sid a) \<and>
         notified (''Error: '' @ e) sid a (fetch_problems_done sid (Raised e) a) \<and>
         notified (''Error: '' @ e) sid a (fetch_detail_done sid (Raised e) a) \<and>
         notified (''Test error: '' @ e) sid a (test_done sid (Raised e) new a) \<and>
         notified (''Submit error: '' @ e) sid a (submit_done sid (Raised e) new a) \<and>
         pushed TestResultScreen new a (test_done sid (Returned v) new a) \<and>
         pushed SubmissionResultScreen new a (submit_done sid (Returned v) new a) \<and>
         notified ''Session expired. Please log in again.'' sid a
           (fetch_problems_done sid (AuthenticationError m) a) \<and>
         Relogin \<in> set (tasks (fetch_problems_done sid (AuthenticationError m) a)) \<and>
         notified ''Session expired. Please log in again.'' sid a
           (fetch_detail_done sid (AuthenticationError m) a) \<and>
         Relogin \<in> set (tasks (fetch_detail_done sid (AuthenticationError m) a)) \<and>
         notified ''Session expired. Please log in again.'' sid a
           (test_done sid (AuthenticationError m) new a) \<and>
         Relogin \<in> set (tasks (test_done sid (AuthenticationError m) new a)) \<and>
         notified ''Session expired. Please log in again.'' sid a
           (submit_done sid (AuthenticationError m) new a) \<and>
         Relogin \<in> set (tasks (submit_done sid (AuthenticationError m) new a)) \<and>
         screen_stack (relogin new a) = [new] \<and>
         kind (screens (relogin new a) new) = LoginScreen \<and>
         pushed LoginScreen new a (check_session_done (Returned []) new a) \<and>
         (r \<noteq> Returned [] \<longrightarrow>
            screen_stack (check_session_done r new a) = butlast (screen_stack a) @ [new] \<and>
            current_screen (check_session_done r new a) = Some new \<and>
            kind (screens (check_session_done r new a) new) = ProblemListScreen)"
proof -
  note q = quiet_own_only [OF stale]
  have 1: "quiet sid a (fetch_problems_start sid a)"
    "quiet sid a (fetch_problems_done sid (Returned (n, tot)) a)"
    "quiet sid a (fetch_detail_done sid (Returned v) a)"
    "quiet sid a (try_browser_resumed sid ev a)"
    "quiet sid a (validate_manual_start sid a)"
    "quiet sid a (validate_manual_done sid r a)"
    "quiet sid a (login_sleep_done sid a)"
    "quiet sid a (run_async_done (\<lambda>a. a) sid a)"
    by (rule q, rule own_only_fetch_problems_start own_only_fetch_problems_done
        own_only_fetch_detail_done own_only_try_browser own_only_validate_manual_start
        own_only_validate_manual_done own_only_login_sleep_done own_only_run_async_done)+
  note 2 = fetch_returned_fields [of sid n tot a v]
  note 3 = notified_fetch_problems [of e sid a] notified_fetch_detail [of e sid a]
    notified_test [of e sid a new] notified_submit [of e sid a new]
  note 4 = pushed_test [of new a sid v] pushed_submit [of new a sid v]
  note 5 = expired_fetch_problems [of sid a m] expired_fetch_detail [of sid a m]
    expired_test [of sid a m new] expired_submit [of sid a m new]
  note 6 = relogin_effect [of new a] check_session_login [of new a]
  have 7: "r \<noteq> Returned [] \<longrightarrow>
      screen_stack (check_session_done r new a) = butlast (screen_stack a) @ [new] \<and>
      current_screen (check_session_done r new a) = Some new \<and>
      kind (screens (check_session_done r new a) new) = ProblemListScreen"
    using check_session_list [of r new a] by simp
  from 1 2 3 4 5 6 7 show ?thesis
    by blast
qed

theorem C9_stale_task_completion_witness:
  "1 \<notin> set (screen_stack detail_popped) \<and> current_screen detail_popped = Some 0 \<and>
   visible (fetch_detail_done 1 (Returned ()) detail_popped) = visible detail_popped \<and>
   screens (fetch_problems_done 1 (Returned (5, 9)) detail_popped) 0 = screens detail_popped 0 \<and>
   problems (screens (fetch_problems_done 1 (Returned (5, 9)) detail_popped) 1) = 5 \<and>
   notification (test_done 1 (Raised ''timed out'') 2 detail_popped) = ''Test error: timed out'' \<and>
   screen_dirty (screens (test_done 1 (Raised ''timed out'') 2 detail_popped) 0) \<and>
   screen_stack (test_done 1 (Returned ()) 2 detail_popped) = [0, 2] \<and>
   current_screen (test_done 1 (Returned ()) 2 detail_popped) = Some 2 \<and>
   screens (test_done 1 (Returned ()) 2 detail_popped) 0 = screens detail_popped 0 \<and>
   notification (submit_done 1 (AuthenticationError ''401'') 2 detail_popped)
     = ''Session expired. Please log in again.'' \<and>
   screen_stack (relogin 2 detail_popped) = [2] \<and>
   Returned ''user'' \<noteq> (Returned [] :: string reply) \<and>
   screen_stack (check_session_done (Returned ''user'') 2 detail_popped) = [2]"
proof -
  have s: "1 \<notin> set (screen_stack detail_popped)" "current_screen detail_popped = Some 0"
    "screen_stack detail_popped = [0]"
    by code_simp+
  from C9_stale_task_completion [OF s(1), where n = 5 and tot = 9 and v = "()"
      and e = "''timed out''" and new = 2 and m = "''401''" and r = "Returned ''user''"]
  show ?thesis
    using s by (simp add: quiet_def own_only_def others_kept_def notified_def pushed_def)
qed

section \<open>The highlight cache\<close>

lemma split_nl_not_Nil [simp]: "split_nl v \<noteq> []"
  by (cases v) simp_all

lemma join_nl_Cons: "join_nl (l # ls) = (if ls = [] then l else l @ CHR 0x0A # join_nl ls)"
  by (cases ls) simp_all

lemma join_nl_split_nl: "join_nl (split_nl v) = v"
proof (induction v)
  case Nil
  then show ?case by simp
next
  case (Cons c cs)
  obtain p ps where x: "split_nl cs = p # ps"
    by (cases "split_nl cs") simp_all
  with Cons show ?case by (auto simp: join_nl_Cons)
qed

lemma no_newline_split_nl: "no_newline (split_nl v)"
proof (induction v)
  case Nil
  then show ?case by (simp add: no_newline_def)
next
  case (Cons c cs)
  obtain p ps where x: "split_nl cs = p # ps"
    by (cases "split_nl cs") simp_all
  with Cons show ?case by (auto simp: no_newline_def)
qed

lemma split_nl_line: "CHR 0x0A \<notin> set l \<Longrightarrow> split_nl (l @ CHR 0x0A # rest) = l # split_nl rest"
  by (induction l) auto

lemma split_nl_single: "CHR 0x0A \<notin> set l \<Longrightarrow> split_nl l = [l]"
  by (induction l) auto

lemma split_nl_join_nl: "no_newline ls \<Longrightarrow> ls \<noteq> [] \<Longrightarrow> split_nl (join_nl ls) = ls"
proof (induction ls)
  case Nil
  then show ?case by simp
next
  case (Cons l ls)
  then show ?case
    by (cases "ls = []") (auto simp: join_nl_Cons no_newline_def split_nl_line split_nl_single)
qed

lemma join_nl_snoc_app:
  "join_nl (xs @ [a @ p] @ ps) = join_nl (xs @ [a]) @ join_nl (p # ps)"
  by (induction xs) (auto simp: join_nl_Cons)

lemma add_parts_later:
  "0 < i \<Longrightarrow> line_texts (add_parts color i parts (hl, cur)) = line_texts (hl, cur) @ parts"
proof (induction parts arbitrary: i hl cur)
  case Nil
  then show ?case by simp
next
  case (Cons p ps)
  then show ?case by (simp add: line_texts_def flat_def Let_def)
qed

lemma add_parts_first:
  "line_texts (add_parts color 0 (p # ps) (hl, cur)) = map flat hl @ [flat cur @ p] @ ps"
  by (simp add: Let_def add_parts_later) (simp add: line_texts_def flat_def)

lemma line_texts_pair: "line_texts (hl, cur) = map flat hl @ [flat cur]"
  by (simp add: line_texts_def)

lemma add_parts_join:
  "join_nl (line_texts (add_parts color 0 (split_nl v) acc)) = join_nl (line_texts acc) @ v"
proof -
  obtain p ps where x: "split_nl v = p # ps"
    by (cases "split_nl v") simp_all
  obtain hl cur where a: "acc = (hl, cur)"
    by (cases acc)
  have "join_nl (p # ps) = v"
    using join_nl_split_nl [of v] x by simp
  then show ?thesis
    unfolding x a add_parts_first line_texts_pair
    using join_nl_snoc_app [of "map flat hl" "flat cur" p ps] by simp
qed

lemma add_parts_no_newline:
  assumes "no_newline (line_texts acc)"
  shows "no_newline (line_texts (add_parts color 0 (split_nl v) acc))"
proof -
  obtain p ps where x: "split_nl v = p # ps"
    by (cases "split_nl v") simp_all
  obtain hl cur where a: "acc = (hl, cur)"
    by (cases acc)
  from no_newline_split_nl [of v] assms show ?thesis
    unfolding x a add_parts_first line_texts_pair
    by (auto simp: no_newline_def)
qed

lemma add_tokens_join:
  "join_nl (line_texts (add_tokens toks acc)) = join_nl (line_texts acc) @ concat (map snd toks)"
proof (induction toks arbitrary: acc)
  case Nil
  then show ?case by simp
next
  case (Cons t toks)
  obtain tt v where t: "t = (tt, v)"
    by (cases t)
  show ?case
    unfolding t by (simp add: Cons.IH add_parts_join)
qed

lemma add_tokens_no_newline:
  "no_newline (line_texts acc) \<Longrightarrow> no_newline (line_texts (add_tokens toks acc))"
proof (induction toks arbitrary: acc)
  case Nil
  then show ?case by simp
next
  case (Cons t toks)
  obtain tt v where t: "t = (tt, v)"
    by (cases t)
  from Cons.prems show ?case
    unfolding t by (simp add: Cons.IH add_parts_no_newline)
qed

lemma add_tokens_lines:
  "line_texts (add_tokens toks ([], [])) = split_nl (concat (map snd toks))"
proof -
  have n: "no_newline (line_texts (add_tokens toks ([], [])))"
    by (rule add_tokens_no_newline) (simp add: no_newline_def line_texts_def flat_def)
  have "line_texts (add_tokens toks ([], [])) \<noteq> []"
    by (simp add: line_texts_def)
  from split_nl_join_nl [OF n this] show ?thesis
    by (simp add: add_tokens_join) (simp add: line_texts_def flat_def)
qed

lemma rehighlight_texts:
  assumes "highlight_dirty s" "lines s \<noteq> []" "no_newline (lines s)"
    and "concat (map snd (lexf (lang_name s) (get_text s))) = get_text s"
  shows "map flat (highlighted (rehighlight lexf s)) = lines s"
proof -
  let ?acc = "add_tokens (lexf (lang_name s) (join_nl (lines s))) ([], [])"
  have "line_texts ?acc = lines s"
    using assms(4) split_nl_join_nl [OF assms(3,2)]
    by (simp add: add_tokens_lines get_text_def)
  then have t: "map flat (fst ?acc @ [snd ?acc]) = lines s"
    by (simp add: line_texts_def)
  then have "length (fst ?acc @ [snd ?acc]) = length (lines s)"
    by (metis length_map)
  with t show ?thesis
    using assms(1) by (simp add: rehighlight_def Let_def)
qed

text \<open>
  C8: for every buffer of lines without line breaks and every lexer whose tokens, put
  together, are the buffer text, \<open>_rehighlight\<close> on a dirty cache leaves exactly one token
  list for each buffer line (and the fragments of the i-th list, put together, are the
  i-th line) and clears the dirty flag; on a cache that is not dirty it changes nothing;
  forcing the cache dirty and recomputing on the unchanged text gives the same state, so
  the same token partition.
\<close>

theorem C8_highlight_cache:
  assumes "highlight_dirty s" "lines s \<noteq> []" "no_newline (lines s)"
    and "concat (map snd (lexf (lang_name s) (get_text s))) = get_text s"
  shows "length (highlighted (rehighlight lexf s)) = length (lines s) \<and>
         map flat (highlighted (rehighlight lexf s)) = lines s \<and>
         \<not> highlight_dirty (rehighlight lexf s) \<and>
         rehighlight lexf (rehighlight lexf s) = rehighlight lexf s \<and>
         rehighlight lexf ((rehighlight lexf s)\<lparr>highlight_dirty := True\<rparr>) = rehighlight lexf s \<and>
         (\<not> highlight_dirty u \<longrightarrow> rehighlight lexf u = u)"
proof -
  have l: "map flat (highlighted (rehighlight lexf s)) = lines s"
    by (rule rehighlight_texts [where s = s and lexf = lexf, OF assms])
  then have "length (highlighted (rehighlight lexf s)) = length (lines s)"
    by (metis length_map)
  moreover have "\<not> highlight_dirty (rehighlight lexf s)"
    using assms(1) by (simp add: rehighlight_def Let_def)
  moreover have "rehighlight lexf (rehighlight lexf s) = rehighlight lexf s"
    using assms(1) by (simp add: rehighlight_def Let_def)
  moreover have "rehighlight lexf ((rehighlight lexf s)\<lparr>highlight_dirty := True\<rparr>) = rehighlight lexf s"
    using assms(1) by (simp add: rehighlight_def Let_def)
  moreover have "\<not> highlight_dirty u \<longrightarrow> rehighlight lexf u = u"
    by (simp add: rehighlight_def)
  ultimately show ?thesis using l by simp
qed

theorem C8_highlight_cache_witness:
  "highlight_dirty two_sum \<and> lines two_sum \<noteq> [] \<and> no_newline (lines two_sum) \<and>
   concat (map snd (plain_lexer (lang_name two_sum) (get_text two_sum))) = get_text two_sum \<and>
   length (highlighted (rehighlight plain_lexer two_sum)) = 2 \<and>
   highlighted (rehighlight plain_lexer two_sum) = [[([], ''two'')], [([], ''sum'')]] \<and>
   \<not> highlight_dirty (rehighlight plain_lexer two_sum) \<and>
   rehighlight plain_lexer (rehighlight plain_lexer two_sum) = rehighlight plain_lexer two_sum \<and>
   rehighlight plain_lexer ((rehighlight plain_lexer two_sum)\<lparr>highlight_dirty := True\<rparr>)
     = rehighlight plain_lexer two_sum"
proof -
  have h: "highlight_dirty two_sum" "lines two_sum \<noteq> []" "no_newline (lines two_sum)"
    "concat (map snd (plain_lexer (lang_name two_sum) (get_text two_sum))) = get_text two_sum"
    by (simp_all add: two_sum_def set_text_def init_def no_newline_def plain_lexer_def get_text_def)
  have l: "length (lines two_sum) = 2"
    by (simp add: two_sum_def set_text_def init_def)
  have c: "highlighted (rehighlight plain_lexer two_sum) = [[([], ''two'')], [([], ''sum'')]]"
    by code_simp
  from C8_highlight_cache [where s = two_sum and lexf = plain_lexer
      and u = "rehighlight plain_lexer two_sum", OF h]
  show ?thesis
    using h l c by simp
qed

section \<open>Deleting the selection\<close>

lemma py_idx_nonneg: "0 \<le> i \<Longrightarrow> i < int (length xs) \<Longrightarrow> py_idx xs i = Some (nat i)"
  by (simp add: py_idx_def Let_def)

lemma py_upto_nonneg: "0 \<le> i \<Longrightarrow> py_upto xs i = take (nat i) xs"
  by (simp add: py_upto_def py_clamp_def Let_def min_def)

lemma py_from_nonneg: "0 \<le> i \<Longrightarrow> py_from xs i = drop (nat i) xs"
  by (simp add: py_from_def py_clamp_def Let_def min_def)

lemma py_del_slice_nonneg:
  "0 \<le> a \<Longrightarrow> a < b \<Longrightarrow> b \<le> int (length xs) \<Longrightarrow>
   py_del_slice xs a b = take (nat a) xs @ drop (nat b) xs"
  by (simp add: py_del_slice_def py_clamp_def Let_def min_def)

lemma take_offset:
  "r < length ls \<Longrightarrow> c \<le> length (ls ! r) \<Longrightarrow>
   take (sum_list (map (\<lambda>l. Suc (length l)) (take r ls)) + c) (join_nl ls)
     = join_nl (take r ls @ [take c (ls ! r)])"
proof (induction ls arbitrary: r)
  case Nil
  then show ?case by simp
next
  case (Cons l ls)
  show ?case
  proof (cases r)
    case 0
    with Cons.prems show ?thesis by (simp add: join_nl_Cons)
  next
    case (Suc r')
    with Cons.prems have "r' < length ls" "c \<le> length (ls ! r')" by simp_all
    from Cons.IH [OF this] Suc this(1) show ?thesis
      by (auto simp: join_nl_Cons)
  qed
qed

lemma drop_offset:
  "r < length ls \<Longrightarrow> c \<le> length (ls ! r) \<Longrightarrow>
   drop (sum_list (map (\<lambda>l. Suc (length l)) (take r ls)) + c) (join_nl ls)
     = join_nl (drop c (ls ! r) # drop (Suc r) ls)"
proof (induction ls arbitrary: r)
  case Nil
  then show ?case by simp
next
  case (Cons l ls)
  show ?case
  proof (cases r)
    case 0
    with Cons.prems show ?thesis by (simp add: join_nl_Cons)
  next
    case (Suc r')
    with Cons.prems have "r' < length ls" "c \<le> length (ls ! r')" by simp_all
    from Cons.IH [OF this] Suc this(1) show ?thesis
      by (auto simp: join_nl_Cons)
  qed
qed

lemma splice_text:
  assumes "r1 < length ls" "c1 \<le> length (ls ! r1)" "r2 < length ls" "c2 \<le> length (ls ! r2)"
  shows "join_nl (take r1 ls @ [take c1 (ls ! r1) @ drop c2 (ls ! r2)] @ drop (Suc r2) ls)
     = take (sum_list (map (\<lambda>l. Suc (length l)) (take r1 ls)) + c1) (join_nl ls)
       @ drop (sum_list (map (\<lambda>l. Suc (length l)) (take r2 ls)) + c2) (join_nl ls)"
  unfolding take_offset [OF assms(1,2)] drop_offset [OF assms(3,4)]
  by (rule join_nl_snoc_app)

lemma sel_range_ordered:
  assumes "sel_range s = Some (p, q)"
  shows "pos_less p q \<and>
         ((sel_anchor s = Some p \<and> cursor s = q) \<or> (sel_anchor s = Some q \<and> cursor s = p))"
  using assms
  by (cases "sel_anchor s")
     (auto simp: sel_range_def pos_less_def cursor_def Let_def prod_eq_iff split: if_splits)

lemma delete_selection_lines:
  assumes r: "sel_range s = Some ((sr, sc), (er, ec))"
    and v1: "valid_pos (lines s) (sr, sc)" and v2: "valid_pos (lines s) (er, ec)"
  shows "delete_selection s =
           Returns True
             (selection_deleted (save_undo s)
                (take (nat sr) (lines s)
                   @ [take (nat sc) (lines s ! nat sr) @ drop (nat ec) (lines s ! nat er)]
                   @ drop (Suc (nat er)) (lines s)) sr sc)"
proof -
  from sel_range_ordered [OF r] have le: "sr \<le> er"
    by (auto simp: pos_less_def)
  from v1 v2 have b: "0 \<le> sr" "sr < int (length (lines s))" "0 \<le> sc"
    "0 \<le> er" "er < int (length (lines s))" "0 \<le> ec"
    by (simp_all add: valid_pos_def)
  have i1: "py_idx (lines s) sr = Some (nat sr)"
    and i2: "py_idx (lines s) er = Some (nat er)"
    using b by (simp_all add: py_idx_nonneg)
  show ?thesis
  proof (cases "sr = er")
    case True
    have "(lines s)[nat er := take (nat sc) (lines s ! nat er) @ drop (nat ec) (lines s ! nat er)]
        = take (nat er) (lines s)
            @ [take (nat sc) (lines s ! nat er) @ drop (nat ec) (lines s ! nat er)]
            @ drop (Suc (nat er)) (lines s)"
      using b by (simp add: upd_conv_take_nth_drop)
    with True show ?thesis
      using b by (simp add: delete_selection_def r i2 Let_def py_upto_nonneg py_from_nonneg
          save_undo_fields)
  next
    case False
    with le have lt: "sr < er" by simp
    let ?x = "take (nat sc) (lines s ! nat sr) @ drop (nat ec) (lines s ! nat er)"
    have "py_del_slice ((lines s)[nat sr := ?x]) (sr + 1) (er + 1)
        = take (nat (sr + 1)) ((lines s)[nat sr := ?x]) @ drop (nat (er + 1)) ((lines s)[nat sr := ?x])"
      using b lt by (simp add: py_del_slice_nonneg)
    also have "\<dots> = take (nat sr) (lines s) @ [?x] @ drop (Suc (nat er)) (lines s)"
      using b lt by (simp add: nat_add_distrib take_Suc_conv_app_nth)
    finally show ?thesis
      using b False by (simp add: delete_selection_def r i1 i2 Let_def py_upto_nonneg
          py_from_nonneg save_undo_fields)
  qed
qed

text \<open>
  Where both ends of the range are positions of the buffer, \<open>delete_selection\<close> returns
  true and removes exactly the normalized half-open range: the range start is below the
  range end and the two are the anchor and the cursor; the lines become the lines before
  the start row, the prefix of the start row joined with the suffix of the end row, and the
  lines after the end row (within one row, that line is spliced; over several rows the rows
  in between are removed); the text becomes the text before the start offset followed by
  the text from the end offset on; the cursor is at the range start and the anchor is
  cleared. With no active selection it returns false and changes nothing.
\<close>

lemma delete_selection_valid_range:
  assumes r: "sel_range s = Some ((sr, sc), (er, ec))"
    and v1: "valid_pos (lines s) (sr, sc)" and v2: "valid_pos (lines s) (er, ec)"
  shows "pos_less (sr, sc) (er, ec) \<and>
         ((sel_anchor s = Some (sr, sc) \<and> cursor s = (er, ec)) \<or>
          (sel_anchor s = Some (er, ec) \<and> cursor s = (sr, sc))) \<and>
         delete_selection s = Returns True (state_of (delete_selection s)) \<and>
         lines (state_of (delete_selection s)) =
           take (nat sr) (lines s)
             @ [take (nat sc) (lines s ! nat sr) @ drop (nat ec) (lines s ! nat er)]
             @ drop (Suc (nat er)) (lines s) \<and>
         (sr = er \<longrightarrow>
            lines (state_of (delete_selection s)) =
              (lines s)[nat sr := take (nat sc) (lines s ! nat sr) @ drop (nat ec) (lines s ! nat sr)]) \<and>
         (sr < er \<longrightarrow>
            length (lines (state_of (delete_selection s))) + nat (er - sr) = length (lines s)) \<and>
         get_text (state_of (delete_selection s)) =
           take (text_offset (lines s) (sr, sc)) (get_text s)
             @ drop (text_offset (lines s) (er, ec)) (get_text s) \<and>
         cursor (state_of (delete_selection s)) = (sr, sc) \<and>
         sel_anchor (state_of (delete_selection s)) = None \<and>
         sel_range (state_of (delete_selection s)) = None \<and>
         highlight_dirty (state_of (delete_selection s)) \<and>
         dirty (state_of (delete_selection s)) \<and>
         (sel_range u = None \<longrightarrow> delete_selection u = Returns False u)"
proof -
  let ?t = "state_of (delete_selection s)"
  let ?ls = "take (nat sr) (lines s)
             @ [take (nat sc) (lines s ! nat sr) @ drop (nat ec) (lines s ! nat er)]
             @ drop (Suc (nat er)) (lines s)"
  note d = delete_selection_lines [OF r v1 v2]
  from sel_range_ordered [OF r] have o: "pos_less (sr, sc) (er, ec)"
    "(sel_anchor s = Some (sr, sc) \<and> cursor s = (er, ec)) \<or>
     (sel_anchor s = Some (er, ec) \<and> cursor s = (sr, sc))"
    by simp_all
  from v1 v2 have b: "0 \<le> sr" "sr < int (length (lines s))" "0 \<le> sc"
    "sc \<le> int (length (lines s ! nat sr))"
    "0 \<le> er" "er < int (length (lines s))" "0 \<le> ec" "ec \<le> int (length (lines s ! nat er))"
    by (simp_all add: valid_pos_def)
  have l: "lines ?t = ?ls"
    by (simp add: d selection_deleted_def)
  have same: "sr = er \<longrightarrow> lines ?t =
      (lines s)[nat sr := take (nat sc) (lines s ! nat sr) @ drop (nat ec) (lines s ! nat sr)]"
    using b by (auto simp: l upd_conv_take_nth_drop)
  have len: "sr < er \<longrightarrow> length (lines ?t) + nat (er - sr) = length (lines s)"
    using b by (auto simp: l)
  have "join_nl ?ls =
      take (sum_list (map (\<lambda>l. Suc (length l)) (take (nat sr) (lines s))) + nat sc) (join_nl (lines s))
      @ drop (sum_list (map (\<lambda>l. Suc (length l)) (take (nat er) (lines s))) + nat ec) (join_nl (lines s))"
    using b by (intro splice_text) simp_all
  then have tx: "get_text ?t =
      take (text_offset (lines s) (sr, sc)) (get_text s)
        @ drop (text_offset (lines s) (er, ec)) (get_text s)"
    by (simp add: get_text_def l text_offset_def)
  have f: "cursor ?t = (sr, sc)" "sel_anchor ?t = None" "sel_range ?t = None"
    "highlight_dirty ?t" "dirty ?t"
    by (simp_all add: d selection_deleted_def cursor_def sel_range_def)
  have n: "sel_range u = None \<longrightarrow> delete_selection u = Returns False u"
    by (simp add: delete_selection_inactive)
  have rt: "delete_selection s = Returns True ?t"
    by (simp add: d)
  from o rt l same len tx f n show ?thesis
    by blast
qed

text \<open>
  On \<open>abcdef\<close> with the range from \<open>(0,2)\<close> to \<open>(0,5)\<close> the result is \<open>abf\<close> with the cursor
  at \<open>(0,2)\<close>; on \<open>["two", "sum"]\<close> the range from \<open>(0,1)\<close> to \<open>(1,2)\<close> leaves \<open>tm\<close>.
\<close>

lemma delete_selection_valid_range_example:
  "sel_range abcdef_selected = Some ((0, 2), (0, 5)) \<and>
   valid_pos (lines abcdef_selected) (0, 2) \<and> valid_pos (lines abcdef_selected) (0, 5) \<and>
   lines abcdef_selected = [''abcdef''] \<and>
   delete_selection abcdef_selected = Returns True (state_of (delete_selection abcdef_selected)) \<and>
   lines (state_of (delete_selection abcdef_selected)) = [''abf''] \<and>
   cursor (state_of (delete_selection abcdef_selected)) = (0, 2) \<and>
   sel_anchor (state_of (delete_selection abcdef_selected)) = None \<and>
   sel_range two_sum_rows_selected = Some ((0, 1), (1, 2)) \<and>
   valid_pos (lines two_sum_rows_selected) (0, 1) \<and> valid_pos (lines two_sum_rows_selected) (1, 2) \<and>
   lines (state_of (delete_selection two_sum_rows_selected)) = [''tm''] \<and>
   cursor (state_of (delete_selection two_sum_rows_selected)) = (0, 1) \<and>
   sel_range two_sum = None \<and> delete_selection two_sum = Returns False two_sum"
proof -
  have r1: "sel_range abcdef_selected = Some ((0, 2), (0, 5))"
    and v1: "valid_pos (lines abcdef_selected) (0, 2)" "valid_pos (lines abcdef_selected) (0, 5)"
    and l1: "lines abcdef_selected = [''abcdef'']"
    by code_simp+
  have r2: "sel_range two_sum_rows_selected = Some ((0, 1), (1, 2))"
    and v2: "valid_pos (lines two_sum_rows_selected) (0, 1)" "valid_pos (lines two_sum_rows_selected) (1, 2)"
    and l2: "lines two_sum_rows_selected = [''two'', ''sum'']"
    by code_simp+
  have n: "sel_range two_sum = None"
    by code_simp
  from delete_selection_valid_range [OF r1 v1, of two_sum]
    delete_selection_valid_range [OF r2 v2, of two_sum]
  show ?thesis
    using r1 v1 l1 r2 v2 l2 n by simp
qed

text \<open>
  C3: for every buffer state with an active selection, \<open>delete_selection\<close> is claimed to
  remove the range, place the cursor at its start, clear the anchor and return true. It
  fails on the code in the states that the stale anchor of C2 produces, which satisfy the
  buffer invariant and have an active selection. In the first state, \<open>["ab"]\<close> with the
  cursor at \<open>(0,1)\<close> and the anchor at \<open>(1,0)\<close>, the range ends at row 1 of a one-line
  buffer: \<open>_delete_selection\<close> pushes its snapshot and raises IndexError at
  \<open>self._lines[er]\<close>, so nothing is removed and the anchor stays. In the second state,
  \<open>["ab", "d"]\<close> with the cursor at \<open>(1,1)\<close> and the anchor at \<open>(0,3)\<close>, it returns true and
  leaves the cursor at column 3 of the line \<open>ab\<close>, outside the buffer.
\<close>

theorem C3_stale_anchor_delete_selection:
  "buffer_inv stale_range_state \<and> lines stale_range_state = [''ab''] \<and>
   cursor stale_range_state = (0, 1) \<and> sel_anchor stale_range_state = Some (1, 0) \<and>
   sel_range stale_range_state = Some ((0, 1), (1, 0)) \<and>
   raised (delete_selection stale_range_state) \<and>
   lines (state_of (delete_selection stale_range_state)) = [''ab''] \<and>
   cursor (state_of (delete_selection stale_range_state)) = (0, 1) \<and>
   sel_anchor (state_of (delete_selection stale_range_state)) = Some (1, 0) \<and>
   length (undo_stack (state_of (delete_selection stale_range_state)))
     = Suc (length (undo_stack stale_range_state)) \<and>
   buffer_inv stale_start_state \<and> lines stale_start_state = [''ab'', ''d''] \<and>
   cursor stale_start_state = (1, 1) \<and> sel_anchor stale_start_state = Some (0, 3) \<and>
   sel_range stale_start_state = Some ((0, 3), (1, 1)) \<and>
   \<not> raised (delete_selection stale_start_state) \<and>
   lines (state_of (delete_selection stale_start_state)) = [''ab''] \<and>
   cursor (state_of (delete_selection stale_start_state)) = (0, 3) \<and>
   \<not> buffer_inv (state_of (delete_selection stale_start_state))"
  by code_simp

end
